theory Spec2Isabelle
  imports Main "HOL-Library.AList" "HOL-Library.Sublist"
begin

section \<open>Python values\<close>

text \<open>
  The handler of \<^verbatim>\<open>lambda_function.py\<close> works on untyped JSON documents. A Python value
  is a \<open>pyval\<close>. A Python \<^verbatim>\<open>str\<close> is a sequence of code points; the model covers the code
  points below 256, one \<open>char\<close> each. A \<^verbatim>\<open>dict\<close> is an association list in insertion
  order (its keys are strings, and distinct in a well-formed dict). Floating-point numbers
  are kept abstract: the type \<open>'f\<close> and the operations on it belong to the runtime.
  \<open>PBytes\<close> is the \<^verbatim>\<open>bytes\<close> payload the store client returns for binary attributes.
\<close>

datatype 'f pyval =
    PNone
  | PBool bool
  | PInt int
  | PFloat 'f
  | PStr string
  | PBytes string
  | PList "'f pyval list"
  | PDict "(string \<times> 'f pyval) list"

type_synonym 'f pydict = "(string \<times> 'f pyval) list"

text \<open>
  Exceptions. \<open>ValueError\<close> and the exceptions of a store call carry their message; for
  the exceptions the interpreter raises the message is a matter of the runtime. Every
  constructor is a subclass of Python's \<^verbatim>\<open>Exception\<close>. \<open>ClientError code m\<close> is the
  exception the store client raises for an error response of the service with that error
  code; \<open>OtherException\<close> is any other exception a call can raise.
\<close>

datatype exn =
    ValueError string
  | TypeError
  | AttributeError
  | KeyError
  | IndexError
  | ClientError string string
  | OtherException string

text \<open>
  What the handler takes from the interpreter and the \<^verbatim>\<open>json\<close> module without the source
  saying how it is computed: \<^verbatim>\<open>float(s)\<close> (\<open>None\<close> is its \<^verbatim>\<open>ValueError\<close>), \<^verbatim>\<open>str(x)\<close> of a
  float, the JSON text of a float, the truth value of a float, \<^verbatim>\<open>str(v)\<close> of a container
  or of bytes, \<^verbatim>\<open>json.loads\<close>, and \<^verbatim>\<open>str(e)\<close> of an interpreter-raised exception.
\<close>

record 'f runtime =
  float_of_str :: "string \<Rightarrow> 'f option"
  str_of_float :: "'f \<Rightarrow> string"
  json_of_float :: "'f \<Rightarrow> string"
  bool_of_float :: "'f \<Rightarrow> bool"
  repr_of :: "'f pyval \<Rightarrow> string"
  json_loads :: "string \<Rightarrow> exn + 'f pyval"
  str_of_builtin_exn :: "exn \<Rightarrow> string"

definition str_exn :: "'f runtime \<Rightarrow> exn \<Rightarrow> string" where
  "str_exn rt e =
     (case e of
        ValueError m \<Rightarrow> m
      | ClientError code m \<Rightarrow> m
      | OtherException m \<Rightarrow> m
      | _ \<Rightarrow> str_of_builtin_exn rt e)"

subsection \<open>Integers and text\<close>

definition digit_char :: "nat \<Rightarrow> char" where
  "digit_char d = ''0123456789'' ! d"

fun str_of_nat :: "nat \<Rightarrow> string" where
  "str_of_nat n = (if n < 10 then [digit_char n] else str_of_nat (n div 10) @ [digit_char (n mod 10)])"

declare str_of_nat.simps [simp del]

definition str_of_int :: "int \<Rightarrow> string" where
  "str_of_int i = (if i < 0 then CHR ''-'' # str_of_nat (nat (- i)) else str_of_nat (nat i))"

definition is_ascii_digit :: "char \<Rightarrow> bool" where
  "is_ascii_digit c = (48 \<le> (of_char c :: nat) \<and> (of_char c :: nat) \<le> 57)"

definition digit_value :: "char \<Rightarrow> nat" where
  "digit_value c = of_char c - 48"

text \<open>
  \<^verbatim>\<open>str.isdigit()\<close>: true when the string is not empty and every character has the
  Unicode property Digit. Below 256 these are \<^verbatim>\<open>0\<close>..\<^verbatim>\<open>9\<close> and the superscript digits
  U+00B2, U+00B3 and U+00B9.
\<close>

definition is_unicode_digit :: "char \<Rightarrow> bool" where
  "is_unicode_digit c =
     (is_ascii_digit c \<or> (of_char c :: nat) = 178 \<or> (of_char c :: nat) = 179 \<or> (of_char c :: nat) = 185)"

definition isdigit :: "string \<Rightarrow> bool" where
  "isdigit s = (s \<noteq> [] \<and> list_all is_unicode_digit s)"

text \<open>
  \<^verbatim>\<open>int(s)\<close> on a string, base 10: white space is stripped on both sides (the ASCII
  white space of the C locale, and U+0085 and U+00A0, which the conversion turns into
  blanks); then an optional sign; then decimal digits, single underscores allowed between
  two digits; at most 4300 digits (the interpreter's limit for the conversion).
  \<open>None\<close> is the \<^verbatim>\<open>ValueError\<close>.
\<close>

definition is_int_space :: "char \<Rightarrow> bool" where
  "is_int_space c = ((of_char c :: nat) \<in> {9, 10, 11, 12, 13, 32, 133, 160})"

fun digits_after :: "nat \<Rightarrow> string \<Rightarrow> nat option" where
  "digits_after acc [] = Some acc"
| "digits_after acc [c] = (if is_ascii_digit c then Some (acc * 10 + digit_value c) else None)"
| "digits_after acc (c # d # cs) =
     (if is_ascii_digit c then digits_after (acc * 10 + digit_value c) (d # cs)
      else if c = CHR ''_'' \<and> is_ascii_digit d then digits_after acc (d # cs)
      else None)"

definition int_max_str_digits :: nat where
  "int_max_str_digits = 4300"

definition unsigned_literal :: "string \<Rightarrow> nat option" where
  "unsigned_literal body =
     (case body of
        [] \<Rightarrow> None
      | d # ds \<Rightarrow>
          if is_ascii_digit d \<and> length (filter is_ascii_digit body) \<le> int_max_str_digits
          then digits_after (digit_value d) ds
          else None)"

definition strip_int_space :: "string \<Rightarrow> string" where
  "strip_int_space s = rev (dropWhile is_int_space (rev (dropWhile is_int_space s)))"

definition py_int :: "string \<Rightarrow> int option" where
  "py_int s =
     (case strip_int_space s of
        [] \<Rightarrow> None
      | c # cs \<Rightarrow>
          if c = CHR ''-'' then map_option (\<lambda>n. - int n) (unsigned_literal cs)
          else if c = CHR ''+'' then map_option int (unsigned_literal cs)
          else map_option int (unsigned_literal (c # cs)))"

subsection \<open>Operations of the interpreter\<close>

definition has_key :: "string \<Rightarrow> (string \<times> 'v) list \<Rightarrow> bool" where
  "has_key k d = (map_of d k \<noteq> None)"

definition dict_get :: "(string \<times> 'v) list \<Rightarrow> string \<Rightarrow> 'v \<Rightarrow> 'v" where
  "dict_get d k dflt = (case map_of d k of Some v \<Rightarrow> v | None \<Rightarrow> dflt)"

text \<open>\<^verbatim>\<open>k in v\<close> for a string \<open>k\<close>: key of a dict, element of a list, substring of a string.\<close>

fun py_in :: "string \<Rightarrow> 'f pyval \<Rightarrow> exn + bool" where
  "py_in k (PDict d) = Inr (has_key k d)"
| "py_in k (PList xs) = Inr (PStr k \<in> set xs)"
| "py_in k (PStr s) = Inr (sublist k s)"
| "py_in k v = Inl TypeError"

text \<open>\<^verbatim>\<open>v[k]\<close> for a string \<open>k\<close>.\<close>

fun py_getitem :: "'f pyval \<Rightarrow> string \<Rightarrow> exn + 'f pyval" where
  "py_getitem (PDict d) k = (case map_of d k of Some v \<Rightarrow> Inr v | None \<Rightarrow> Inl KeyError)"
| "py_getitem v k = Inl TypeError"

text \<open>\<^verbatim>\<open>v[0]\<close>.\<close>

fun py_first :: "'f pyval \<Rightarrow> exn + 'f pyval" where
  "py_first (PList xs) = (case xs of [] \<Rightarrow> Inl IndexError | x # _ \<Rightarrow> Inr x)"
| "py_first (PStr s) = (case s of [] \<Rightarrow> Inl IndexError | c # _ \<Rightarrow> Inr (PStr [c]))"
| "py_first (PBytes s) = (case s of [] \<Rightarrow> Inl IndexError | c # _ \<Rightarrow> Inr (PInt (of_char c)))"
| "py_first (PDict d) = Inl KeyError"
| "py_first v = Inl TypeError"

fun py_len :: "'f pyval \<Rightarrow> exn + nat" where
  "py_len (PList xs) = Inr (length xs)"
| "py_len (PStr s) = Inr (length s)"
| "py_len (PBytes s) = Inr (length s)"
| "py_len (PDict d) = Inr (length d)"
| "py_len v = Inl TypeError"

text \<open>\<^verbatim>\<open>v.get(k, dflt)\<close>: only a dict has the method.\<close>

fun py_get :: "'f pyval \<Rightarrow> string \<Rightarrow> 'f pyval \<Rightarrow> exn + 'f pyval" where
  "py_get (PDict d) k dflt = Inr (dict_get d k dflt)"
| "py_get v k dflt = Inl AttributeError"

fun py_truthy :: "'f runtime \<Rightarrow> 'f pyval \<Rightarrow> bool" where
  "py_truthy rt PNone = False"
| "py_truthy rt (PBool b) = b"
| "py_truthy rt (PInt i) = (i \<noteq> 0)"
| "py_truthy rt (PFloat x) = bool_of_float rt x"
| "py_truthy rt (PStr s) = (s \<noteq> [])"
| "py_truthy rt (PBytes s) = (s \<noteq> [])"
| "py_truthy rt (PList xs) = (xs \<noteq> [])"
| "py_truthy rt (PDict d) = (d \<noteq> [])"

fun py_str :: "'f runtime \<Rightarrow> 'f pyval \<Rightarrow> string" where
  "py_str rt (PStr s) = s"
| "py_str rt (PInt i) = str_of_int i"
| "py_str rt (PBool b) = (if b then ''True'' else ''False'')"
| "py_str rt PNone = ''None''"
| "py_str rt (PFloat x) = str_of_float rt x"
| "py_str rt v = repr_of rt v"

subsection \<open>Results that may raise\<close>

definition bind :: "exn + 'a \<Rightarrow> ('a \<Rightarrow> exn + 'b) \<Rightarrow> exn + 'b" where
  "bind m f = (case m of Inl e \<Rightarrow> Inl e | Inr x \<Rightarrow> f x)"

fun collect :: "(exn + 'a) list \<Rightarrow> exn + 'a list" where
  "collect [] = Inr []"
| "collect (m # ms) =
     (case m of
        Inl e \<Rightarrow> Inl e
      | Inr x \<Rightarrow> (case collect ms of Inl e \<Rightarrow> Inl e | Inr xs \<Rightarrow> Inr (x # xs)))"

subsection \<open>\<^verbatim>\<open>json.dumps\<close>\<close>

text \<open>
  \<^verbatim>\<open>json.dumps(v)\<close> with the default arguments: separators \<^verbatim>\<open>", "\<close> and \<^verbatim>\<open>": "\<close>, and
  \<^verbatim>\<open>ensure_ascii\<close>, which writes every character outside \<^verbatim>\<open>' '\<close>..\<^verbatim>\<open>'~'\<close> as an escape.
  Bytes are not serialisable: \<^verbatim>\<open>TypeError\<close>.
\<close>

definition hex_char :: "nat \<Rightarrow> char" where
  "hex_char d = ''0123456789abcdef'' ! d"

definition json_escape :: "char \<Rightarrow> string" where
  "json_escape c =
     (if c = CHR ''\"'' then [CHR 0x5C, CHR ''\"'']
      else if c = CHR 0x5C then [CHR 0x5C, CHR 0x5C]
      else if c = CHR 0x0A then [CHR 0x5C, CHR ''n'']
      else if c = CHR 0x0D then [CHR 0x5C, CHR ''r'']
      else if c = CHR 0x09 then [CHR 0x5C, CHR ''t'']
      else if c = CHR 0x08 then [CHR 0x5C, CHR ''b'']
      else if c = CHR 0x0C then [CHR 0x5C, CHR ''f'']
      else if 32 \<le> (of_char c :: nat) \<and> (of_char c :: nat) \<le> 126 then [c]
      else [CHR 0x5C, CHR ''u'', CHR ''0'', CHR ''0'',
            hex_char ((of_char c :: nat) div 16), hex_char ((of_char c :: nat) mod 16)])"

definition json_quote :: "string \<Rightarrow> string" where
  "json_quote s = CHR ''\"'' # concat (map json_escape s) @ [CHR ''\"'']"

fun join :: "string \<Rightarrow> string list \<Rightarrow> string" where
  "join sep [] = []"
| "join sep [x] = x"
| "join sep (x # y # ys) = x @ sep @ join sep (y # ys)"

text \<open>
  An integer of more than 4300 digits is not converted to text: \<^verbatim>\<open>ValueError\<close>, as in
  \<^verbatim>\<open>int(s)\<close>.
\<close>

definition int_str_limit_error :: exn where
  "int_str_limit_error = ValueError
     ''Exceeds the limit (4300 digits) for integer string conversion; use sys.set_int_max_str_digits() to increase the limit''"

fun json_dumps :: "'f runtime \<Rightarrow> 'f pyval \<Rightarrow> exn + string" where
  "json_dumps rt PNone = Inr ''null''"
| "json_dumps rt (PBool b) = Inr (if b then ''true'' else ''false'')"
| "json_dumps rt (PInt i) =
     (if length (str_of_nat (nat \<bar>i\<bar>)) \<le> int_max_str_digits then Inr (str_of_int i)
      else Inl int_str_limit_error)"
| "json_dumps rt (PFloat x) = Inr (json_of_float rt x)"
| "json_dumps rt (PStr s) = Inr (json_quote s)"
| "json_dumps rt (PBytes s) = Inl TypeError"
| "json_dumps rt (PList xs) =
     bind (collect (map (json_dumps rt) xs)) (\<lambda>ts. Inr (''['' @ join '', '' ts @ '']''))"
| "json_dumps rt (PDict d) =
     bind (collect (map (\<lambda>kv. bind (json_dumps rt (snd kv)) (\<lambda>t. Inr (json_quote (fst kv) @ '': '' @ t))) d))
       (\<lambda>ts. Inr (''{'' @ join '', '' ts @ ''}''))"

subsection \<open>\<^verbatim>\<open>json.loads\<close>, on flat objects\<close>

text \<open>
  Modelled from the library's documentation: \<^verbatim>\<open>json.loads(s)\<close> with the default
  arguments, on the text of an object whose values are strings, numbers and the constants
  \<^verbatim>\<open>true\<close>, \<^verbatim>\<open>false\<close>, \<^verbatim>\<open>null\<close>, \<^verbatim>\<open>NaN\<close>, \<^verbatim>\<open>Infinity\<close> and \<^verbatim>\<open>-Infinity\<close>. \<open>None\<close> is the
  \<^verbatim>\<open>JSONDecodeError\<close> (or the \<^verbatim>\<open>ValueError\<close> of an integer beyond the limit). Outside this
  model, and answered \<open>None\<close> as well: any other text (an array, a nested object, a bare
  scalar) and the escape of a code point above 255.

  White space is blank, tab, line feed and carriage return. In a string a backslash
  starts an escape and a control character is refused. A number is an optional minus, an
  integer part without a leading zero, an optional fraction and an optional exponent; it
  is read by \<^verbatim>\<open>int\<close> when it has neither fraction nor exponent, else by \<^verbatim>\<open>float\<close>. A key
  that comes again replaces the value of the first.

  The handler's own call of \<^verbatim>\<open>json.loads\<close>, on the body of the event (line 26), reads any
  document, and stays with the runtime.
\<close>

definition is_json_space :: "char \<Rightarrow> bool" where
  "is_json_space c = (c = CHR '' '' \<or> c = CHR 0x09 \<or> c = CHR 0x0A \<or> c = CHR 0x0D)"

definition skip_space :: "string \<Rightarrow> string" where
  "skip_space s = dropWhile is_json_space s"

definition hex_value :: "char \<Rightarrow> nat option" where
  "hex_value c =
     (if 48 \<le> (of_char c :: nat) \<and> (of_char c :: nat) \<le> 57 then Some (of_char c - 48)
      else if 97 \<le> (of_char c :: nat) \<and> (of_char c :: nat) \<le> 102 then Some (of_char c - 87)
      else if 65 \<le> (of_char c :: nat) \<and> (of_char c :: nat) \<le> 70 then Some (of_char c - 55)
      else None)"

definition unescape :: "char \<Rightarrow> char option" where
  "unescape e =
     (if e = CHR ''\"'' then Some (CHR ''\"'')
      else if e = CHR 0x5C then Some (CHR 0x5C)
      else if e = CHR ''/'' then Some (CHR ''/'')
      else if e = CHR ''b'' then Some (CHR 0x08)
      else if e = CHR ''f'' then Some (CHR 0x0C)
      else if e = CHR ''n'' then Some (CHR 0x0A)
      else if e = CHR ''r'' then Some (CHR 0x0D)
      else if e = CHR ''t'' then Some (CHR 0x09)
      else None)"

definition push :: "char \<Rightarrow> (string \<times> string) option \<Rightarrow> (string \<times> string) option" where
  "push c r = (case r of None \<Rightarrow> None | Some (s, rest) \<Rightarrow> Some (c # s, rest))"

text \<open>After the opening quote: the string, and the text after the closing quote.\<close>

fun scan_string :: "string \<Rightarrow> (string \<times> string) option" where
  "scan_string [] = None"
| "scan_string (c # cs) =
     (if c = CHR ''\"'' then Some ([], cs)
      else if c = CHR 0x5C then
        (case cs of
           [] \<Rightarrow> None
         | e # r \<Rightarrow>
             if e = CHR ''u'' then
               (case r of
                  h1 # h2 # h3 # h4 # r' \<Rightarrow>
                    (case (hex_value h1, hex_value h2, hex_value h3, hex_value h4) of
                       (Some a, Some b, Some x, Some y) \<Rightarrow>
                         if a = 0 \<and> b = 0 then push (char_of (16 * x + y)) (scan_string r')
                         else None
                     | _ \<Rightarrow> None)
                | _ \<Rightarrow> None)
             else (case unescape e of None \<Rightarrow> None | Some ch \<Rightarrow> push ch (scan_string r)))
      else if (of_char c :: nat) < 32 then None
      else push c (scan_string cs))"

definition scan_fraction :: "string \<Rightarrow> string \<times> string" where
  "scan_fraction s =
     (case s of
        [] \<Rightarrow> ([], s)
      | c # cs \<Rightarrow>
          if c = CHR ''.'' \<and> takeWhile is_ascii_digit cs \<noteq> []
          then (c # takeWhile is_ascii_digit cs, dropWhile is_ascii_digit cs)
          else ([], s))"

definition scan_sign :: "string \<Rightarrow> string \<times> string" where
  "scan_sign s =
     (case s of
        [] \<Rightarrow> ([], s)
      | c # cs \<Rightarrow> if c = CHR ''+'' \<or> c = CHR ''-'' then ([c], cs) else ([], s))"

definition scan_exponent :: "string \<Rightarrow> string \<times> string" where
  "scan_exponent s =
     (case s of
        [] \<Rightarrow> ([], s)
      | c # cs \<Rightarrow>
          if (c = CHR ''e'' \<or> c = CHR ''E'') \<and> takeWhile is_ascii_digit (snd (scan_sign cs)) \<noteq> []
          then (c # fst (scan_sign cs) @ takeWhile is_ascii_digit (snd (scan_sign cs)),
                dropWhile is_ascii_digit (snd (scan_sign cs)))
          else ([], s))"

text \<open>The integer part: a minus if any, then \<^verbatim>\<open>0\<close> alone or digits that do not start with \<^verbatim>\<open>0\<close>.\<close>

definition scan_minus :: "string \<Rightarrow> string \<times> string" where
  "scan_minus s =
     (case s of
        [] \<Rightarrow> ([], s)
      | c # cs \<Rightarrow> if c = CHR ''-'' then ([c], cs) else ([], s))"

definition scan_integer :: "string \<Rightarrow> (string \<times> string) option" where
  "scan_integer s =
     (let (minus, body) = scan_minus s in
      case takeWhile is_ascii_digit body of
        [] \<Rightarrow> None
      | d # ds \<Rightarrow>
          if d = CHR ''0'' then Some (minus @ [d], tl body)
          else Some (minus @ d # ds, dropWhile is_ascii_digit body))"

definition scan_number :: "'f runtime \<Rightarrow> string \<Rightarrow> ('f pyval \<times> string) option" where
  "scan_number rt s =
     (case scan_integer s of
        None \<Rightarrow> None
      | Some (integer, r1) \<Rightarrow>
          let (frac, r2) = scan_fraction r1; (ex, r3) = scan_exponent r2 in
          if frac = [] \<and> ex = [] then map_option (\<lambda>i. (PInt i, r3)) (py_int integer)
          else map_option (\<lambda>x. (PFloat x, r3)) (float_of_str rt (integer @ frac @ ex)))"

definition scan_value :: "'f runtime \<Rightarrow> string \<Rightarrow> ('f pyval \<times> string) option" where
  "scan_value rt s =
     (case s of
        [] \<Rightarrow> None
      | c # cs \<Rightarrow>
          if c = CHR ''\"'' then map_option (\<lambda>(t, r). (PStr t, r)) (scan_string cs)
          else if prefix ''null'' s then Some (PNone, drop 4 s)
          else if prefix ''true'' s then Some (PBool True, drop 4 s)
          else if prefix ''false'' s then Some (PBool False, drop 5 s)
          else if prefix ''NaN'' s then map_option (\<lambda>x. (PFloat x, drop 3 s)) (float_of_str rt ''nan'')
          else if prefix ''Infinity'' s then map_option (\<lambda>x. (PFloat x, drop 8 s)) (float_of_str rt ''inf'')
          else if prefix ''-Infinity'' s then map_option (\<lambda>x. (PFloat x, drop 9 s)) (float_of_str rt ''-inf'')
          else scan_number rt s)"

text \<open>
  The members of an object, from the quote that opens a key to the closing brace. The
  first argument bounds the number of members; the length of the text is enough.
\<close>

fun scan_members :: "nat \<Rightarrow> 'f runtime \<Rightarrow> 'f pydict \<Rightarrow> string \<Rightarrow> ('f pydict \<times> string) option" where
  "scan_members 0 rt acc s = None"
| "scan_members (Suc n) rt acc s =
     (case s of
        [] \<Rightarrow> None
      | c # cs \<Rightarrow>
          if c \<noteq> CHR ''\"'' then None
          else
            (case scan_string cs of
               None \<Rightarrow> None
             | Some (key, r1) \<Rightarrow>
                 (case skip_space r1 of
                    [] \<Rightarrow> None
                  | c2 # r2 \<Rightarrow>
                      if c2 \<noteq> CHR '':'' then None
                      else
                        (case scan_value rt (skip_space r2) of
                           None \<Rightarrow> None
                         | Some (v, r3) \<Rightarrow>
                             (case skip_space r3 of
                                [] \<Rightarrow> None
                              | c4 # r4 \<Rightarrow>
                                  if c4 = CHR '','' then scan_members n rt (AList.update key v acc) (skip_space r4)
                                  else if c4 = CHR ''}'' then Some (AList.update key v acc, r4)
                                  else None)))))"

definition loads_flat :: "'f runtime \<Rightarrow> string \<Rightarrow> 'f pyval option" where
  "loads_flat rt s =
     (case skip_space s of
        [] \<Rightarrow> None
      | c # cs \<Rightarrow>
          if c \<noteq> CHR ''{'' then None
          else
            (case skip_space cs of
               [] \<Rightarrow> None
             | c1 # r1 \<Rightarrow>
                 if c1 = CHR ''}'' then (if skip_space r1 = [] then Some (PDict []) else None)
                 else
                   (case scan_members (length s) rt [] (c1 # r1) of
                      None \<Rightarrow> None
                    | Some (d, r) \<Rightarrow> if skip_space r = [] then Some (PDict d) else None)))"

text \<open>The scalars of a decoded record, and the floats whose JSON text is read back as the float.\<close>

fun is_scalar :: "'f pyval \<Rightarrow> bool" where
  "is_scalar (PInt i) = True"
| "is_scalar (PFloat x) = True"
| "is_scalar (PStr s) = True"
| "is_scalar v = False"

fun float_read_back :: "'f runtime \<Rightarrow> 'f pyval \<Rightarrow> bool" where
  "float_read_back rt (PFloat x) = (scan_value rt (json_of_float rt x) = Some (PFloat x, []))"
| "float_read_back rt v = True"

section \<open>The store client\<close>

text \<open>
  A stored item maps a field name to a tagged value, itself a mapping from the tag
  (\<^verbatim>\<open>'N'\<close>, \<^verbatim>\<open>'S'\<close>, ...) to the payload. The response of \<^verbatim>\<open>get_item\<close> has the key
  \<^verbatim>\<open>'Item'\<close> when the key exists. The client is the three calls the handler makes;
  each returns or raises. The calls only read the store.
\<close>

type_synonym 'f attribute_value = "(string \<times> 'f pyval) list"

type_synonym 'f item = "(string \<times> 'f attribute_value) list"

record 'f response =
  Item :: "'f item option"

record 'f client =
  describe_table :: "string \<Rightarrow> exn + 'f pyval"
  scan :: "string \<Rightarrow> nat \<Rightarrow> exn + 'f pyval"
  get_item :: "string \<Rightarrow> 'f item \<Rightarrow> exn + 'f response"

text \<open>
  The client of line 5 is a DynamoDB client. Its attribute \<^verbatim>\<open>exceptions\<close> has one class
  for each error that the model of the service declares, under the name of the error;
  looking up any other name raises \<^verbatim>\<open>AttributeError\<close>. The names below are those of
  the model. What the handler depends on: \<^verbatim>\<open>ResourceNotFoundException\<close> and
  \<^verbatim>\<open>ProvisionedThroughputExceededException\<close> are among them, and
  \<^verbatim>\<open>AccessDeniedException\<close> is not, so that a denied access arrives as a plain
  \<^verbatim>\<open>ClientError\<close> with that code.
\<close>

definition dynamodb_exception_names :: "string list" where
  "dynamodb_exception_names =
     [''BackupInUseException'', ''BackupNotFoundException'', ''ConditionalCheckFailedException'',
      ''ContinuousBackupsUnavailableException'', ''DuplicateItemException'',
      ''ExportConflictException'', ''ExportNotFoundException'',
      ''GlobalTableAlreadyExistsException'', ''GlobalTableNotFoundException'',
      ''IdempotentParameterMismatchException'', ''ImportConflictException'',
      ''ImportNotFoundException'', ''IndexNotFoundException'', ''InternalServerError'',
      ''InvalidEndpointException'', ''InvalidExportTimeException'',
      ''InvalidRestoreTimeException'', ''ItemCollectionSizeLimitExceededException'',
      ''LimitExceededException'', ''PointInTimeRecoveryUnavailableException'',
      ''PolicyNotFoundException'', ''ProvisionedThroughputExceededException'',
      ''ReplicaAlreadyExistsException'', ''ReplicaNotFoundException'',
      ''ReplicatedWriteConflictException'', ''RequestLimitExceeded'',
      ''ResourceInUseException'', ''ResourceNotFoundException'',
      ''TableAlreadyExistsException'', ''TableInUseException'', ''TableNotFoundException'',
      ''ThrottlingException'', ''TransactionCanceledException'',
      ''TransactionConflictException'', ''TransactionInProgressException'']"

text \<open>\<^verbatim>\<open>client.exceptions.NAME\<close>: the class, known by its name.\<close>

definition client_exception :: "string \<Rightarrow> exn + string" where
  "client_exception name =
     (if name \<in> set dynamodb_exception_names then Inr name else Inl AttributeError)"

text \<open>Whether an \<^verbatim>\<open>except\<close> clause for the class catches the exception.\<close>

definition caught_by :: "exn \<Rightarrow> string \<Rightarrow> bool" where
  "caught_by e cls = (case e of ClientError code m \<Rightarrow> code = cls | _ \<Rightarrow> False)"

text \<open>
  What an invocation does besides returning: the calls to the store, in order, and the
  two lines it prints with the outcome of a diagnostic call (the other prints are left
  out).
\<close>

datatype 'f effect =
    DescribeTable string
  | Scan string nat
  | GetItem string "'f item"
  | Print "exn + 'f pyval"

fun is_GetItem :: "'f effect \<Rightarrow> bool" where
  "is_GetItem (GetItem t k) = True"
| "is_GetItem e = False"

section \<open>\<^verbatim>\<open>format_response\<close>\<close>

text \<open>
  The event is any value: the payload of an invocation is a JSON document, an object for
  the callers the handler is written for. Line 180 asks \<^verbatim>\<open>'agent' in event\<close>, and the
  lines after it call \<^verbatim>\<open>event.get\<close>.
\<close>

definition format_response :: "'f runtime \<Rightarrow> 'f pyval \<Rightarrow> 'f pyval \<Rightarrow> int \<Rightarrow> exn + 'f pyval" where
  "format_response rt event body_content status_code =
     bind (json_dumps rt body_content) (\<lambda>body.
       let response_body = PDict [(''application/json'', PDict [(''body'', PStr body)])] in
       bind (py_in ''agent'' event) (\<lambda>has_agent.
       bind (if has_agent then py_in ''actionGroup'' event else Inr False) (\<lambda>for_agent.
         if for_agent then
           bind (py_get event ''actionGroup'' (PStr [])) (\<lambda>action_group.
           bind (py_get event ''apiPath'' (PStr [])) (\<lambda>api_path.
           bind (py_get event ''httpMethod'' (PStr ''GET'')) (\<lambda>http_method.
             let action_response = PDict
                   [(''actionGroup'', action_group),
                    (''apiPath'', api_path),
                    (''httpMethod'', http_method),
                    (''httpStatusCode'', PInt status_code),
                    (''responseBody'', response_body)]
             in
             bind (py_get event ''sessionAttributes'' (PDict [])) (\<lambda>session_attributes.
             bind (py_get event ''promptSessionAttributes'' (PDict [])) (\<lambda>prompt_session_attributes.
               Inr (PDict
                 [(''messageVersion'', PStr ''1.0''),
                  (''response'', action_response),
                  (''sessionAttributes'', session_attributes),
                  (''promptSessionAttributes'', prompt_session_attributes)]))))))
         else
           Inr (PDict
                 [(''statusCode'', PInt status_code),
                  (''headers'', PDict
                     [(''Content-Type'', PStr ''application/json''),
                      (''Access-Control-Allow-Origin'', PStr ''*'')]),
                  (''body'', PStr body)]))))"

definition error_body :: "string \<Rightarrow> 'f pyval" where
  "error_body msg = PDict [(''error'', PStr msg)]"

section \<open>\<^verbatim>\<open>lambda_handler\<close>\<close>

subsection \<open>Extracting the employee id (lines 13 to 44)\<close>

text \<open>
  Line 18 to 22: the branch taken when \<^verbatim>\<open>'requestBody' in event and 'content' in
  event['requestBody']\<close>. It leaves \<^verbatim>\<open>user_input_data\<close> at \<^verbatim>\<open>None\<close> unless the
  properties are a non-empty list.
\<close>

definition is_agent_request :: "'f pyval \<Rightarrow> exn + bool" where
  "is_agent_request event =
     bind (py_in ''requestBody'' event) (\<lambda>has_request_body.
       if has_request_body
       then bind (py_getitem event ''requestBody'') (\<lambda>request_body. py_in ''content'' request_body)
       else Inr False)"

definition agent_value :: "'f runtime \<Rightarrow> 'f pyval \<Rightarrow> exn + 'f pyval" where
  "agent_value rt event =
     bind (py_getitem event ''requestBody'') (\<lambda>request_body.
     bind (py_getitem request_body ''content'') (\<lambda>content.
     bind (py_in ''application/json'' content) (\<lambda>has_json.
       if has_json then
         bind (py_getitem content ''application/json'') (\<lambda>json_content.
         bind (py_get json_content ''properties'' (PList [])) (\<lambda>properties.
           if py_truthy rt properties then
             bind (py_len properties) (\<lambda>n.
               if n > 0 then
                 bind (py_first properties) (\<lambda>p. py_get p ''value'' PNone)
               else Inr PNone)
           else Inr PNone))
       else Inr PNone)))"

text \<open>Line 25 to 27: the branch taken when \<^verbatim>\<open>'body' in event\<close>.\<close>

definition body_value :: "'f runtime \<Rightarrow> 'f pyval \<Rightarrow> exn + 'f pyval" where
  "body_value rt event =
     bind (py_getitem event ''body'') (\<lambda>body.
     bind (case body of
             PStr s \<Rightarrow> json_loads rt s
           | b \<Rightarrow> Inr b) (\<lambda>body_content.
       py_get body_content ''empID'' PNone))"

text \<open>Line 30 and 31: the top-level \<^verbatim>\<open>empID\<close>, read when nothing has been found.\<close>

definition top_level_value :: "'f pyval \<Rightarrow> 'f pyval \<Rightarrow> exn + 'f pyval" where
  "top_level_value event found =
     (if found = PNone then
        bind (py_in ''empID'' event) (\<lambda>has_id.
          if has_id then py_getitem event ''empID'' else Inr found)
      else Inr found)"

definition missing_id :: exn where
  "missing_id = ValueError ''Employee ID not found in the request''"

text \<open>Line 33 to 38: the value found is turned into a string; none, or an empty one, raises.\<close>

definition to_identifier :: "'f runtime \<Rightarrow> 'f pyval \<Rightarrow> exn + string" where
  "to_identifier rt user_input_data =
     (if user_input_data = PNone then Inl missing_id
      else if py_str rt user_input_data = [] then Inl missing_id
      else Inr (py_str rt user_input_data))"

definition extract_employee_id :: "'f runtime \<Rightarrow> 'f pyval \<Rightarrow> exn + string" where
  "extract_employee_id rt event =
     bind (is_agent_request event) (\<lambda>agent.
     bind (if agent then agent_value rt event
           else bind (py_in ''body'' event) (\<lambda>has_body.
                  if has_body then body_value rt event else Inr PNone)) (\<lambda>found.
     bind (top_level_value event found) (\<lambda>user_input_data.
       to_identifier rt user_input_data)))"

text \<open>
  The resolution as the specification words it: the three shapes in priority order,
  each tried in turn until one yields a value. The shapes themselves are the handler's.
\<close>

definition first_match :: "'f runtime \<Rightarrow> 'f pyval \<Rightarrow> exn + 'f pyval" where
  "first_match rt event =
     bind (is_agent_request event) (\<lambda>agent.
     bind (if agent then agent_value rt event else Inr PNone) (\<lambda>v1.
       if v1 \<noteq> PNone then Inr v1
       else
         bind (py_in ''body'' event) (\<lambda>has_body.
         bind (if has_body then body_value rt event else Inr PNone) (\<lambda>v2.
           if v2 \<noteq> PNone then Inr v2
           else top_level_value event PNone))))"

definition resolve_first_match :: "'f runtime \<Rightarrow> 'f pyval \<Rightarrow> exn + string" where
  "resolve_first_match rt event = bind (first_match rt event) (to_identifier rt)"

subsection \<open>Querying the store (lines 47 to 125)\<close>

definition table_name :: string where
  "table_name = ''leaveBalanceHRTable''"

definition invalid_format_body :: "string \<Rightarrow> 'f pyval" where
  "invalid_format_body uid =
     error_body (''Invalid employee ID format: '' @ uid @ ''. Employee ID must be numeric.'')"

definition not_found_body :: "string \<Rightarrow> 'f pyval" where
  "not_found_body uid =
     error_body (''Employee with ID '' @ uid @ '' not found in the leave balance database'')"

text \<open>
  The body of the inner \<^verbatim>\<open>try\<close>. It returns an envelope (\<open>Inl\<close>), or falls through
  with \<^verbatim>\<open>leave_balance\<close> (\<open>Inr\<close>), or raises. The two diagnostic calls sit in
  \<^verbatim>\<open>try\<close> blocks of their own, whose \<^verbatim>\<open>except Exception\<close> only prints.
\<close>

definition query_try ::
  "'f runtime \<Rightarrow> 'f client \<Rightarrow> 'f pyval \<Rightarrow> string \<Rightarrow> 'f effect list \<times> (exn + ('f pyval + 'f item))" where
  "query_try rt client event user_input_data =
     (if \<not> isdigit user_input_data then
        ([], bind (format_response rt event (invalid_format_body user_input_data) 400)
               (\<lambda>r. Inr (Inl r)))
      else
        let table_info = describe_table client table_name;
            scan_result = scan client table_name 5;
            key = [(''empID'', [(''N'', PStr user_input_data)])];
            effects = [DescribeTable table_name, Print table_info,
                       Scan table_name 5, Print scan_result,
                       GetItem table_name key]
        in (effects,
            bind (get_item client table_name key) (\<lambda>response.
              case Item response of
                None \<Rightarrow>
                  bind (format_response rt event (not_found_body user_input_data) 404)
                    (\<lambda>r. Inr (Inl r))
              | Some leave_balance \<Rightarrow> Inr (Inr leave_balance))))"

text \<open>
  The \<^verbatim>\<open>except\<close> clauses of the inner \<^verbatim>\<open>try\<close> (lines 96 to 125). Python evaluates the
  class of a clause when the clauses before it have not caught the exception; an
  exception raised by that evaluation leaves the \<^verbatim>\<open>try\<close> statement. So the clause of
  line 110, which names \<^verbatim>\<open>client.exceptions.AccessDeniedException\<close>, raises
  \<^verbatim>\<open>AttributeError\<close> for every exception that the two clauses before it let pass.
\<close>

definition query_except :: "'f runtime \<Rightarrow> 'f pyval \<Rightarrow> exn \<Rightarrow> exn + 'f pyval" where
  "query_except rt event e =
     bind (client_exception ''ResourceNotFoundException'') (\<lambda>not_found.
       if caught_by e not_found then
         format_response rt event (error_body ''DynamoDB table leaveBalanceHRTable not found'') 404
       else
         bind (client_exception ''ProvisionedThroughputExceededException'') (\<lambda>throughput_exceeded.
           if caught_by e throughput_exceeded then
             format_response rt event
               (error_body ''Database is currently experiencing high traffic. Please try again later.'') 429
           else
             bind (client_exception ''AccessDeniedException'') (\<lambda>access_denied.
               if caught_by e access_denied then
                 format_response rt event
                   (error_body ''The function does not have permission to access the leave balance database'') 403
               else
                 format_response rt event
                   (error_body (''Failed to retrieve employee data: '' @ str_exn rt e)) 500)))"

definition query ::
  "'f runtime \<Rightarrow> 'f client \<Rightarrow> 'f pyval \<Rightarrow> string \<Rightarrow> 'f effect list \<times> (exn + ('f pyval + 'f item))" where
  "query rt client event user_input_data =
     (case query_try rt client event user_input_data of
        (effects, Inl e) \<Rightarrow> (effects, bind (query_except rt event e) (\<lambda>r. Inr (Inl r)))
      | (effects, Inr x) \<Rightarrow> (effects, Inr x))"

subsection \<open>Decoding the item (lines 128 to 158)\<close>

definition decode_value :: "'f runtime \<Rightarrow> 'f attribute_value \<Rightarrow> exn + 'f pyval" where
  "decode_value rt value_dict =
     (case value_dict of
        [] \<Rightarrow> Inl IndexError
      | (value_type, raw_value) # others \<Rightarrow>
          if value_type = ''N'' then
            (case raw_value of
               PStr s \<Rightarrow>
                 if CHR ''.'' \<notin> set s then
                   (case py_int s of Some i \<Rightarrow> Inr (PInt i) | None \<Rightarrow> Inr (PStr s))
                 else
                   (case float_of_str rt s of Some x \<Rightarrow> Inr (PFloat x) | None \<Rightarrow> Inr (PStr s))
             | _ \<Rightarrow> Inl TypeError)
          else Inr raw_value)"

fun decode_fields :: "'f runtime \<Rightarrow> 'f item \<Rightarrow> 'f pydict \<Rightarrow> exn + 'f pydict" where
  "decode_fields rt [] readable_leave_balance = Inr readable_leave_balance"
| "decode_fields rt ((key, value_dict) # rest) readable_leave_balance =
     bind (decode_value rt value_dict) (\<lambda>v.
       decode_fields rt rest (AList.update key v readable_leave_balance))"

definition decode_item :: "'f runtime \<Rightarrow> 'f item \<Rightarrow> exn + 'f pydict" where
  "decode_item rt leave_balance = decode_fields rt leave_balance []"

definition respond_item :: "'f runtime \<Rightarrow> 'f pyval \<Rightarrow> 'f item \<Rightarrow> exn + 'f pyval" where
  "respond_item rt event leave_balance =
     (if leave_balance \<noteq> [] then
        bind (decode_item rt leave_balance) (\<lambda>readable_leave_balance.
        bind (json_dumps rt (PDict readable_leave_balance)) (\<lambda>printed.
          format_response rt event (PDict readable_leave_balance) 200))
      else
        format_response rt event
          (error_body ''An unexpected error occurred while processing the leave balance data'') 500)"

subsection \<open>The handler\<close>

text \<open>The body of the outer \<^verbatim>\<open>try\<close> (lines 9 to 158).\<close>

definition handler_try :: "'f runtime \<Rightarrow> 'f client \<Rightarrow> 'f pyval \<Rightarrow> 'f effect list \<times> (exn + 'f pyval)" where
  "handler_try rt client event =
     (case json_dumps rt event of
        Inl e \<Rightarrow> ([], Inl e)
      | Inr printed \<Rightarrow>
          (case extract_employee_id rt event of
             Inl e \<Rightarrow> ([], Inl e)
           | Inr user_input_data \<Rightarrow>
               (case query rt client event user_input_data of
                  (effects, Inl e) \<Rightarrow> (effects, Inl e)
                | (effects, Inr (Inl envelope)) \<Rightarrow> (effects, Inr envelope)
                | (effects, Inr (Inr leave_balance)) \<Rightarrow>
                    (effects, respond_item rt event leave_balance))))"

definition internal_error_body :: "'f runtime \<Rightarrow> exn \<Rightarrow> 'f pyval" where
  "internal_error_body rt e = error_body (''Internal server error: '' @ str_exn rt e)"

text \<open>
  The handler: \<open>Inr\<close> is the envelope it returns, \<open>Inl\<close> an exception that leaves it.
  The call of \<^verbatim>\<open>format_response\<close> in the \<^verbatim>\<open>except\<close> clause (line 162) is outside every
  \<^verbatim>\<open>try\<close>: what it raises leaves the handler.
\<close>

definition lambda_handler :: "'f runtime \<Rightarrow> 'f client \<Rightarrow> 'f pyval \<Rightarrow> 'f effect list \<times> (exn + 'f pyval)" where
  "lambda_handler rt client event =
     (case handler_try rt client event of
        (effects, Inl e) \<Rightarrow> (effects, format_response rt event (internal_error_body rt e) 500)
      | (effects, Inr envelope) \<Rightarrow> (effects, Inr envelope))"

section \<open>Reading an envelope\<close>

text \<open>
  The two envelopes \<^verbatim>\<open>format_response\<close> builds, recognised by their keys, and what a
  caller reads from them: the status code and the JSON text of the payload.
\<close>

definition gateway_headers :: "'f pyval" where
  "gateway_headers =
     PDict [(''Content-Type'', PStr ''application/json''), (''Access-Control-Allow-Origin'', PStr ''*'')]"

fun is_gateway_envelope :: "'f pyval \<Rightarrow> bool" where
  "is_gateway_envelope (PDict [(k1, PInt status), (k2, headers), (k3, PStr body)]) =
     (k1 = ''statusCode'' \<and> k2 = ''headers'' \<and> headers = gateway_headers \<and> k3 = ''body'')"
| "is_gateway_envelope v = False"

fun is_action_response :: "'f pyval \<Rightarrow> bool" where
  "is_action_response (PDict [(k1, g), (k2, p), (k3, m), (k4, PInt status), (k5, PDict [(k6, PDict [(k7, PStr body)])])]) =
     (k1 = ''actionGroup'' \<and> k2 = ''apiPath'' \<and> k3 = ''httpMethod'' \<and> k4 = ''httpStatusCode'' \<and>
      k5 = ''responseBody'' \<and> k6 = ''application/json'' \<and> k7 = ''body'')"
| "is_action_response v = False"

fun is_agent_envelope :: "'f pyval \<Rightarrow> bool" where
  "is_agent_envelope (PDict [(k1, version), (k2, response), (k3, sa), (k4, psa)]) =
     (k1 = ''messageVersion'' \<and> version = PStr ''1.0'' \<and> k2 = ''response'' \<and> is_action_response response \<and>
      k3 = ''sessionAttributes'' \<and> k4 = ''promptSessionAttributes'')"
| "is_agent_envelope v = False"

fun at_path :: "'f pyval \<Rightarrow> string list \<Rightarrow> 'f pyval option" where
  "at_path v [] = Some v"
| "at_path (PDict d) (k # ks) = (case map_of d k of Some v \<Rightarrow> at_path v ks | None \<Rightarrow> None)"
| "at_path v (k # ks) = None"

definition status_of :: "'f pyval \<Rightarrow> 'f pyval option" where
  "status_of envelope =
     (if is_gateway_envelope envelope then at_path envelope [''statusCode'']
      else if is_agent_envelope envelope then at_path envelope [''response'', ''httpStatusCode'']
      else None)"

definition payload_of :: "'f pyval \<Rightarrow> 'f pyval option" where
  "payload_of envelope =
     (if is_gateway_envelope envelope then at_path envelope [''body'']
      else if is_agent_envelope envelope
      then at_path envelope [''response'', ''responseBody'', ''application/json'', ''body'']
      else None)"

text \<open>
  \<open>returns r status body\<close>: the call returned (it did not raise) a well-formed envelope
  with this status code and this JSON text as its payload.
\<close>

definition returns :: "exn + 'f pyval \<Rightarrow> int \<Rightarrow> string \<Rightarrow> bool" where
  "returns r status body =
     (case r of
        Inl e \<Rightarrow> False
      | Inr envelope \<Rightarrow>
          status_of envelope = Some (PInt status) \<and> payload_of envelope = Some (PStr body))"

text \<open>The JSON text of \<^verbatim>\<open>{"error": msg}\<close>.\<close>

definition error_json :: "string \<Rightarrow> string" where
  "error_json msg = ''{'' @ json_quote ''error'' @ '': '' @ json_quote msg @ ''}''"

section \<open>A runtime and a client for concrete inputs\<close>

text \<open>
  To evaluate the handler on a concrete event, a runtime in which a float is kept as
  the text of its literal (digits, a point, digits), \<^verbatim>\<open>json.loads\<close> knows the documents
  used below, and a client whose table holds the item of employee 12345.
\<close>

definition sample_float :: "string \<Rightarrow> string option" where
  "sample_float s =
     (let ds = takeWhile is_ascii_digit s; r = dropWhile is_ascii_digit s in
      case r of
        [] \<Rightarrow> None
      | c # fs \<Rightarrow> if c = CHR ''.'' \<and> ds \<noteq> [] \<and> fs \<noteq> [] \<and> list_all is_ascii_digit fs then Some s else None)"

definition sample_loads :: "string \<Rightarrow> exn + string pyval" where
  "sample_loads s =
     (if s = ''{'' @ json_quote ''empID'' @ '': '' @ json_quote ''12345'' @ ''}''
      then Inr (PDict [(''empID'', PStr ''12345'')])
      else if s = ''{'' @ json_quote ''empID'' @ '': 12345}''
      then Inr (PDict [(''empID'', PInt 12345)])
      else if s = ''{}'' then Inr (PDict [])
      else Inl (ValueError ''Expecting value''))"

definition sample_runtime :: "string runtime" where
  "sample_runtime =
     \<lparr>float_of_str = sample_float,
      str_of_float = (\<lambda>x. x),
      json_of_float = (\<lambda>x. x),
      bool_of_float = (\<lambda>x. \<not> list_all (\<lambda>c. c = CHR ''0'' \<or> c = CHR ''.'') x),
      repr_of = (\<lambda>v. ''[...]''),
      json_loads = sample_loads,
      str_of_builtin_exn = (\<lambda>e. ''error'')\<rparr>"

definition sample_item :: "string item" where
  "sample_item =
     [(''empID'', [(''N'', PStr ''12345'')]),
      (''balance'', [(''N'', PStr ''15'')]),
      (''name'', [(''S'', PStr ''Ana'')])]"

definition sample_client :: "string client" where
  "sample_client =
     \<lparr>describe_table = (\<lambda>t. Inr (PDict [(''Table'', PDict [(''TableName'', PStr t)])])),
      scan = (\<lambda>t n. Inr (PDict [(''Count'', PInt 1)])),
      get_item = (\<lambda>t key.
         if t \<noteq> table_name
         then Inl (ClientError ''ResourceNotFoundException'' ''Requested resource not found'')
         else if key = [(''empID'', [(''N'', PStr ''12345'')])] then Inr \<lparr>Item = Some sample_item\<rparr>
         else Inr \<lparr>Item = None\<rparr>)\<rparr>"

section \<open>Lemmas\<close>

lemma bind_Inr [simp]: "bind (Inr x) f = f x"
  by (simp add: bind_def)

lemma bind_Inl [simp]: "bind (Inl e) f = Inl e"
  by (simp add: bind_def)

lemma bind_eq_Inr: "bind m f = Inr y \<longleftrightarrow> (\<exists>x. m = Inr x \<and> f x = Inr y)"
  by (cases m) simp_all

lemma py_getitem_dict:
  "has_key k d \<Longrightarrow> py_getitem (PDict d) k = Inr (dict_get d k dflt)"
  by (auto simp: has_key_def dict_get_def)

subsection \<open>On an event that is an object\<close>

lemma format_response_object:
  "format_response rt (PDict event) body_content status_code =
     bind (json_dumps rt body_content) (\<lambda>body.
       if has_key ''agent'' event \<and> has_key ''actionGroup'' event then
         Inr (PDict
           [(''messageVersion'', PStr ''1.0''),
            (''response'', PDict
               [(''actionGroup'', dict_get event ''actionGroup'' (PStr [])),
                (''apiPath'', dict_get event ''apiPath'' (PStr [])),
                (''httpMethod'', dict_get event ''httpMethod'' (PStr ''GET'')),
                (''httpStatusCode'', PInt status_code),
                (''responseBody'', PDict [(''application/json'', PDict [(''body'', PStr body)])])]),
            (''sessionAttributes'', dict_get event ''sessionAttributes'' (PDict [])),
            (''promptSessionAttributes'', dict_get event ''promptSessionAttributes'' (PDict []))])
       else
         Inr (PDict
           [(''statusCode'', PInt status_code),
            (''headers'', PDict
               [(''Content-Type'', PStr ''application/json''),
                (''Access-Control-Allow-Origin'', PStr ''*'')]),
            (''body'', PStr body)]))"
  by (cases "json_dumps rt body_content") (simp_all add: format_response_def Let_def)

lemma is_agent_request_object:
  "is_agent_request (PDict event) =
     (if has_key ''requestBody'' event
      then py_in ''content'' (dict_get event ''requestBody'' PNone)
      else Inr False)"
  by (auto simp: is_agent_request_def has_key_def dict_get_def split: option.splits)

lemma top_level_value_object:
  "top_level_value (PDict event) found =
     Inr (if found = PNone then dict_get event ''empID'' PNone else found)"
  by (auto simp: top_level_value_def has_key_def dict_get_def split: option.splits)

lemma extract_employee_id_object:
  "extract_employee_id rt (PDict event) =
     bind (is_agent_request (PDict event)) (\<lambda>agent.
     bind (if agent then agent_value rt (PDict event)
           else if has_key ''body'' event then body_value rt (PDict event)
           else Inr PNone) (\<lambda>found.
       to_identifier rt (if found = PNone then dict_get event ''empID'' PNone else found)))"
proof (cases "is_agent_request (PDict event)")
  case (Inl e)
  then show ?thesis by (simp add: extract_employee_id_def)
next
  case (Inr agent)
  then show ?thesis
    by (cases agent) (simp_all add: extract_employee_id_def top_level_value_object)
qed

text \<open>The extraction finds an identifier in an object only.\<close>

lemma extract_employee_id_Inr_object:
  assumes "extract_employee_id rt event = Inr uid"
  shows "\<exists>d. event = PDict d"
proof (cases event)
  case (PStr s)
  with assms show ?thesis
    by (auto simp: extract_employee_id_def is_agent_request_def body_value_def top_level_value_def
        to_identifier_def bind_eq_Inr split: if_splits)
next
  case (PList xs)
  with assms show ?thesis
    by (auto simp: extract_employee_id_def is_agent_request_def body_value_def top_level_value_def
        to_identifier_def bind_eq_Inr split: if_splits)
qed (use assms in \<open>simp_all add: extract_employee_id_def is_agent_request_def\<close>)

subsection \<open>Envelopes\<close>

lemma json_dumps_error_body: "json_dumps rt (error_body msg) = Inr (error_json msg)"
  by (simp add: error_body_def error_json_def)

lemma format_response_returns:
  "json_dumps rt body_content = Inr body \<Longrightarrow>
   returns (format_response rt (PDict event) body_content status_code) status_code body"
  by (simp add: format_response_object returns_def status_of_def payload_of_def gateway_headers_def)

lemma format_response_error:
  "returns (format_response rt (PDict event) (error_body msg) status_code) status_code (error_json msg)"
  by (rule format_response_returns) (rule json_dumps_error_body)

lemma format_response_error_Inr:
  "\<exists>envelope. format_response rt (PDict event) (error_body msg) status = Inr envelope"
  using format_response_error [of rt event msg status]
  by (cases "format_response rt (PDict event) (error_body msg) status") (simp_all add: returns_def)

lemma format_response_Inr:
  assumes "format_response rt event body_content status_code = Inr envelope"
  shows "\<exists>body. returns (Inr envelope) status_code body"
proof -
  from assms obtain body where b: "json_dumps rt body_content = Inr body"
    by (auto simp: format_response_def bind_eq_Inr)
  show ?thesis
  proof (cases "\<exists>d. event = PDict d")
    case True
    then obtain d where "event = PDict d" ..
    with format_response_returns [OF b, of d status_code] assms show ?thesis by auto
  next
    case False
    with assms b have "envelope = PDict
           [(''statusCode'', PInt status_code),
            (''headers'', PDict
               [(''Content-Type'', PStr ''application/json''),
                (''Access-Control-Allow-Origin'', PStr ''*'')]),
            (''body'', PStr body)]"
      by (cases event) (auto simp: format_response_def Let_def bind_eq_Inr split: if_splits)
    then have "returns (Inr envelope) status_code body"
      by (simp add: returns_def status_of_def payload_of_def gateway_headers_def)
    then show ?thesis ..
  qed
qed

lemma returns_status_unique:
  "returns r status body \<Longrightarrow> returns r status' body' \<Longrightarrow> status' = status \<and> body' = body"
  by (cases r) (simp_all add: returns_def)

subsection \<open>The \<^verbatim>\<open>except\<close> clauses of the query\<close>

lemma client_exception_simps:
  "client_exception ''ResourceNotFoundException'' = Inr ''ResourceNotFoundException''"
  "client_exception ''ProvisionedThroughputExceededException'' = Inr ''ProvisionedThroughputExceededException''"
  "client_exception ''AccessDeniedException'' = Inl AttributeError"
  by (simp_all add: client_exception_def dynamodb_exception_names_def)

lemma query_except_cases:
  "query_except rt event e =
     (if caught_by e ''ResourceNotFoundException'' then
        format_response rt event (error_body ''DynamoDB table leaveBalanceHRTable not found'') 404
      else if caught_by e ''ProvisionedThroughputExceededException'' then
        format_response rt event
          (error_body ''Database is currently experiencing high traffic. Please try again later.'') 429
      else Inl AttributeError)"
  by (simp add: query_except_def client_exception_simps)

lemma query_except_Inr:
  "query_except rt event e = Inr envelope \<Longrightarrow> \<exists>status body. returns (Inr envelope) status body"
  using format_response_Inr by (fastforce simp: query_except_cases split: if_splits)

subsection \<open>The body of the outer \<^verbatim>\<open>try\<close>\<close>

lemma query_try_digit:
  "isdigit uid \<Longrightarrow>
   query_try rt client event uid =
     ([DescribeTable table_name, Print (describe_table client table_name),
       Scan table_name 5, Print (scan client table_name 5),
       GetItem table_name [(''empID'', [(''N'', PStr uid)])]],
      bind (get_item client table_name [(''empID'', [(''N'', PStr uid)])]) (\<lambda>response.
        case Item response of
          None \<Rightarrow> bind (format_response rt event (not_found_body uid) 404) (\<lambda>r. Inr (Inl r))
        | Some leave_balance \<Rightarrow> Inr (Inr leave_balance)))"
  by (simp add: query_try_def Let_def)

lemma query_try_not_digit:
  "\<not> isdigit uid \<Longrightarrow>
   query_try rt client event uid =
     ([], bind (format_response rt event (invalid_format_body uid) 400) (\<lambda>r. Inr (Inl r)))"
  by (simp add: query_try_def)

lemma query_Inl_envelope:
  assumes "snd (query rt client event uid) = Inr (Inl envelope)"
  shows "\<exists>status body. returns (Inr envelope) status body"
proof (cases "snd (query_try rt client event uid)")
  case (Inl e)
  then have "query_except rt event e = Inr envelope"
    using assms by (auto simp: query_def bind_eq_Inr split: prod.splits sum.splits)
  then show ?thesis by (rule query_except_Inr)
next
  case (Inr x)
  then have x: "x = Inl envelope"
    using assms by (auto simp: query_def split: prod.splits sum.splits)
  show ?thesis
  proof (cases "isdigit uid")
    case False
    with Inr x have "format_response rt event (invalid_format_body uid) 400 = Inr envelope"
      by (auto simp: query_try_def bind_eq_Inr)
    then show ?thesis using format_response_Inr by blast
  next
    case True
    with Inr x have "format_response rt event (not_found_body uid) 404 = Inr envelope"
      by (auto simp: query_try_def Let_def bind_eq_Inr split: option.splits)
    then show ?thesis using format_response_Inr by blast
  qed
qed

lemma respond_item_Inr:
  assumes "respond_item rt event item = Inr envelope"
  shows "\<exists>status body. returns (Inr envelope) status body"
  using assms format_response_Inr
  by (fastforce simp: respond_item_def bind_eq_Inr split: if_splits)

lemma handler_try_Inr:
  assumes "snd (handler_try rt client event) = Inr envelope"
  shows "\<exists>status body. returns (Inr envelope) status body"
proof -
  from assms obtain printed uid where
    uid: "json_dumps rt event = Inr printed" "extract_employee_id rt event = Inr uid"
    by (auto simp: handler_try_def split: sum.splits)
  obtain effects r where q: "query rt client event uid = (effects, r)"
    by (cases "query rt client event uid")
  show ?thesis
  proof (cases r)
    case (Inl e)
    with assms uid q show ?thesis by (simp add: handler_try_def)
  next
    case (Inr x)
    show ?thesis
    proof (cases x)
      case (Inl env)
      with Inr assms uid q have "env = envelope" by (simp add: handler_try_def)
      with Inl Inr q query_Inl_envelope [of rt client event uid envelope] show ?thesis by simp
    next
      case (Inr item)
      with \<open>r = Inr x\<close> assms uid q have "respond_item rt event item = Inr envelope"
        by (simp add: handler_try_def)
      then show ?thesis by (rule respond_item_Inr)
    qed
  qed
qed

lemma lambda_handler_raised:
  "snd (handler_try rt client (PDict event)) = Inl e \<Longrightarrow>
   returns (snd (lambda_handler rt client (PDict event))) 500
     (error_json (''Internal server error: '' @ str_exn rt e))"
  by (cases "handler_try rt client (PDict event)")
     (simp add: lambda_handler_def internal_error_body_def format_response_error)

lemma lambda_handler_returned:
  "snd (handler_try rt client event) = Inr envelope \<Longrightarrow>
   snd (lambda_handler rt client event) = Inr envelope"
  by (cases "handler_try rt client event") (simp add: lambda_handler_def)

lemma lambda_handler_effects:
  "fst (lambda_handler rt client event) = fst (handler_try rt client event)"
  by (cases "handler_try rt client event") (auto simp: lambda_handler_def split: sum.splits)

lemma lambda_handler_of_try:
  "returns (snd (handler_try rt client event)) status body \<Longrightarrow>
   returns (snd (lambda_handler rt client event)) status body"
  by (cases "handler_try rt client event"; cases "snd (handler_try rt client event)")
     (auto simp: lambda_handler_def returns_def)

text \<open>What the outer \<^verbatim>\<open>try\<close> body yields once the identifier has passed the check.\<close>

lemma handler_try_digit:
  assumes "json_dumps rt event = Inr printed"
    and "extract_employee_id rt event = Inr uid"
    and "isdigit uid"
  shows "snd (handler_try rt client event) =
     (case get_item client table_name [(''empID'', [(''N'', PStr uid)])] of
        Inl e \<Rightarrow> query_except rt event e
      | Inr response \<Rightarrow>
          (case Item response of
             None \<Rightarrow> format_response rt event (not_found_body uid) 404
           | Some item \<Rightarrow> respond_item rt event item))"
proof (cases "get_item client table_name [(''empID'', [(''N'', PStr uid)])]")
  case (Inl e)
  with assms show ?thesis
    by (cases "query_except rt event e")
       (simp_all add: handler_try_def query_def query_try_digit)
next
  case (Inr response)
  show ?thesis
  proof (cases "Item response")
    case None
    from assms(2) obtain d where "event = PDict d"
      using extract_employee_id_Inr_object by blast
    then obtain envelope where "format_response rt event (not_found_body uid) 404 = Inr envelope"
      using format_response_error_Inr [of rt d _ 404] by (auto simp: not_found_body_def)
    with None Inr assms show ?thesis
      by (simp add: handler_try_def query_def query_try_digit)
  next
    case (Some item)
    with Inr assms show ?thesis
      by (simp add: handler_try_def query_def query_try_digit)
  qed
qed

lemma handler_try_effects_digit:
  assumes "json_dumps rt event = Inr printed"
    and "extract_employee_id rt event = Inr uid"
    and "isdigit uid"
  shows "fst (handler_try rt client event) =
     [DescribeTable table_name, Print (describe_table client table_name),
      Scan table_name 5, Print (scan client table_name 5),
      GetItem table_name [(''empID'', [(''N'', PStr uid)])]]"
  using assms
  by (auto simp: handler_try_def query_def query_try_digit split: sum.splits prod.splits)

lemma handler_try_not_digit:
  assumes "json_dumps rt event = Inr printed"
    and "extract_employee_id rt event = Inr uid"
    and "\<not> isdigit uid"
  shows "handler_try rt client event =
     ([], format_response rt event (invalid_format_body uid) 400)"
proof -
  from assms(2) obtain d where "event = PDict d"
    using extract_employee_id_Inr_object by blast
  then obtain envelope where "format_response rt event (invalid_format_body uid) 400 = Inr envelope"
    using format_response_error_Inr [of rt d _ 400] by (auto simp: invalid_format_body_def)
  with assms show ?thesis
    by (simp add: handler_try_def query_def query_try_not_digit)
qed

lemma respond_item_cases:
  "(if item = [] then
      returns (respond_item rt (PDict event) item) 500
        (error_json ''An unexpected error occurred while processing the leave balance data'')
    else
      (case decode_item rt item of
         Inl e \<Rightarrow> respond_item rt (PDict event) item = Inl e
       | Inr readable \<Rightarrow>
           (case json_dumps rt (PDict readable) of
              Inl e \<Rightarrow> respond_item rt (PDict event) item = Inl e
            | Inr body \<Rightarrow> returns (respond_item rt (PDict event) item) 200 body)))"
  by (auto simp: respond_item_def format_response_error format_response_returns split: sum.splits)

text \<open>
  The outcome of the handler for an identifier that passed the check, by the outcome of
  \<^verbatim>\<open>get_item\<close>.
\<close>

lemma lambda_handler_classified:
  assumes "json_dumps rt event = Inr printed"
    and "extract_employee_id rt event = Inr uid"
    and "isdigit uid"
  shows
    "(case get_item client table_name [(''empID'', [(''N'', PStr uid)])] of
        Inl e \<Rightarrow>
          if caught_by e ''ResourceNotFoundException'' then
            returns (snd (lambda_handler rt client event)) 404
              (error_json ''DynamoDB table leaveBalanceHRTable not found'')
          else if caught_by e ''ProvisionedThroughputExceededException'' then
            returns (snd (lambda_handler rt client event)) 429
              (error_json ''Database is currently experiencing high traffic. Please try again later.'')
          else
            returns (snd (lambda_handler rt client event)) 500
              (error_json (''Internal server error: '' @ str_exn rt AttributeError))
      | Inr response \<Rightarrow>
          (case Item response of
             None \<Rightarrow>
               returns (snd (lambda_handler rt client event)) 404
                 (error_json (''Employee with ID '' @ uid @ '' not found in the leave balance database''))
           | Some item \<Rightarrow>
               if item = [] then
                 returns (snd (lambda_handler rt client event)) 500
                   (error_json ''An unexpected error occurred while processing the leave balance data'')
               else
                 (case decode_item rt item of
                    Inl e \<Rightarrow>
                      returns (snd (lambda_handler rt client event)) 500
                        (error_json (''Internal server error: '' @ str_exn rt e))
                  | Inr readable \<Rightarrow>
                      (case json_dumps rt (PDict readable) of
                         Inl e \<Rightarrow>
                           returns (snd (lambda_handler rt client event)) 500
                             (error_json (''Internal server error: '' @ str_exn rt e))
                       | Inr body \<Rightarrow> returns (snd (lambda_handler rt client event)) 200 body))))"
proof -
  from assms(2) obtain d where d: "event = PDict d"
    using extract_employee_id_Inr_object by blast
  note t = handler_try_digit [OF assms, of client]
  show ?thesis
  proof (cases "get_item client table_name [(''empID'', [(''N'', PStr uid)])]")
    case (Inl e)
    with t have q: "snd (handler_try rt client event) = query_except rt event e" by simp
    consider (a) "caught_by e ''ResourceNotFoundException''"
      | (b) "\<not> caught_by e ''ResourceNotFoundException''"
            "caught_by e ''ProvisionedThroughputExceededException''"
      | (c) "\<not> caught_by e ''ResourceNotFoundException''"
            "\<not> caught_by e ''ProvisionedThroughputExceededException''"
      by blast
    then show ?thesis
    proof cases
      case a
      with q d have "returns (snd (handler_try rt client event)) 404
          (error_json ''DynamoDB table leaveBalanceHRTable not found'')"
        by (simp add: query_except_cases format_response_error)
      from lambda_handler_of_try [OF this] Inl a show ?thesis by simp
    next
      case b
      with q d have "returns (snd (handler_try rt client event)) 429
          (error_json ''Database is currently experiencing high traffic. Please try again later.'')"
        by (simp add: query_except_cases format_response_error)
      from lambda_handler_of_try [OF this] Inl b show ?thesis by simp
    next
      case c
      with q d have "snd (handler_try rt client (PDict d)) = Inl AttributeError"
        by (simp add: query_except_cases)
      from lambda_handler_raised [OF this] d Inl c show ?thesis by simp
    qed
  next
    case (Inr response)
    show ?thesis
    proof (cases "Item response")
      case None
      with Inr t
      have "snd (handler_try rt client event) = format_response rt event (not_found_body uid) 404"
        by simp
      with d have "returns (snd (handler_try rt client event)) 404
          (error_json (''Employee with ID '' @ uid @ '' not found in the leave balance database''))"
        by (simp add: not_found_body_def format_response_error)
      from lambda_handler_of_try [OF this] Inr None show ?thesis by simp
    next
      case (Some item)
      with Inr t d
      have r: "snd (handler_try rt client (PDict d)) = respond_item rt (PDict d) item" by simp
      show ?thesis
      proof (cases "item = []")
        case True
        with respond_item_cases [of item rt d] r
        have "returns (snd (handler_try rt client (PDict d))) 500
            (error_json ''An unexpected error occurred while processing the leave balance data'')"
          by simp
        from lambda_handler_of_try [OF this] d Inr Some True show ?thesis by simp
      next
        case False
        show ?thesis
        proof (cases "decode_item rt item")
          case (Inl e)
          with respond_item_cases [of item rt d] False r
          have "snd (handler_try rt client (PDict d)) = Inl e" by simp
          from lambda_handler_raised [OF this] d Inr Some False Inl show ?thesis by simp
        next
          case readable: (Inr readable)
          show ?thesis
          proof (cases "json_dumps rt (PDict readable)")
            case (Inl e)
            with respond_item_cases [of item rt d] False r readable
            have "snd (handler_try rt client (PDict d)) = Inl e" by simp
            from lambda_handler_raised [OF this] d Inr Some False readable Inl show ?thesis
              by simp
          next
            case body: (Inr body)
            with respond_item_cases [of item rt d] False r readable
            have "returns (snd (handler_try rt client (PDict d))) 200 body" by simp
            from lambda_handler_of_try [OF this] d Inr Some False readable body show ?thesis
              by simp
          qed
        qed
      qed
    qed
  qed
qed

text \<open>An identifier that has passed the check is never answered with status 400.\<close>

lemma digit_identifier_not_400:
  assumes "json_dumps rt event = Inr printed"
    and "extract_employee_id rt event = Inr uid"
    and "isdigit uid"
  shows "\<not> returns (snd (lambda_handler rt client event)) 400 body"
proof
  assume r: "returns (snd (lambda_handler rt client event)) 400 body"
  have u: "status = 400" if "returns (snd (lambda_handler rt client event)) status payload"
    for status payload
    using returns_status_unique [OF r that] by simp
  note c = lambda_handler_classified [OF assms, of client]
  show False
  proof (cases "get_item client table_name [(''empID'', [(''N'', PStr uid)])]")
    case (Inl e)
    with c show False by (auto split: if_splits dest: u)
  next
    case (Inr response)
    show False
    proof (cases "Item response")
      case None
      with c Inr show False by (auto dest: u)
    next
      case (Some item)
      show False
      proof (cases "item = []")
        case True
        with c Inr Some show False by (auto dest: u)
      next
        case False
        show False
        proof (cases "decode_item rt item")
          case (Inl e)
          with c Inr Some False show False by (auto dest: u)
        next
          case readable: (Inr readable)
          show False
          proof (cases "json_dumps rt (PDict readable)")
            case (Inl e)
            with c Inr Some False readable show False
              by (auto simp del: json_dumps.simps dest: u)
          next
            case body: (Inr body)
            with c Inr Some False readable show False
              by (auto simp del: json_dumps.simps dest: u)
          qed
        qed
      qed
    qed
  qed
qed

lemma isdigit_needs_digits: "c \<in> set uid \<Longrightarrow> \<not> is_unicode_digit c \<Longrightarrow> \<not> isdigit uid"
  by (auto simp: isdigit_def list_all_iff)

lemma non_digit_identifier_rejected:
  assumes "json_dumps rt event = Inr printed"
    and "extract_employee_id rt event = Inr uid"
    and "\<not> isdigit uid"
  shows "fst (lambda_handler rt client event) = [] \<and>
     returns (snd (lambda_handler rt client event)) 400
       (error_json (''Invalid employee ID format: '' @ uid @ ''. Employee ID must be numeric.''))"
proof -
  from assms(2) obtain d where d: "event = PDict d"
    using extract_employee_id_Inr_object by blast
  have t: "handler_try rt client event = ([], format_response rt event (invalid_format_body uid) 400)"
    using assms by (rule handler_try_not_digit)
  have "returns (snd (handler_try rt client event)) 400
       (error_json (''Invalid employee ID format: '' @ uid @ ''. Employee ID must be numeric.''))"
    unfolding t using d by (simp add: invalid_format_body_def format_response_error)
  then show ?thesis using t by (simp add: lambda_handler_of_try lambda_handler_effects)
qed

text \<open>
  What the handler does when \<^verbatim>\<open>get_item\<close> raises anything but the two exceptions caught
  first, a denied access among them: the \<^verbatim>\<open>AttributeError\<close> of line 110 reaches the
  top-level \<^verbatim>\<open>except\<close>.
\<close>

lemma other_store_failure_is_internal_error:
  assumes "json_dumps rt event = Inr printed"
    and "extract_employee_id rt event = Inr uid"
    and "isdigit uid"
    and "get_item client table_name [(''empID'', [(''N'', PStr uid)])] = Inl e"
    and "\<not> caught_by e ''ResourceNotFoundException''"
    and "\<not> caught_by e ''ProvisionedThroughputExceededException''"
  shows "returns (snd (lambda_handler rt client event)) 500
     (error_json (''Internal server error: '' @ str_exn rt AttributeError))"
  using lambda_handler_classified [OF assms(1-3), of client] assms(4-6) by simp

subsection \<open>The decoder\<close>

lemma decode_fields_empty_mapping:
  "(field, []) \<in> set item \<Longrightarrow> \<exists>e. decode_fields rt item acc = Inl e"
proof (induction item arbitrary: acc)
  case Nil
  then show ?case by simp
next
  case (Cons kv item)
  obtain key value_dict where kv: "kv = (key, value_dict)" by (cases kv)
  show ?case
  proof (cases "decode_value rt value_dict")
    case (Inl e)
    with kv show ?thesis by simp
  next
    case (Inr v)
    with Cons.prems kv have "(field, []) \<in> set item"
      by (auto simp: decode_value_def)
    from Cons.IH [OF this] Inr kv show ?thesis by simp
  qed
qed

lemma decode_fields_each:
  "decode_fields rt item acc = Inr readable \<Longrightarrow> (field, value_dict) \<in> set item \<Longrightarrow>
   \<exists>v. decode_value rt value_dict = Inr v"
proof (induction item arbitrary: acc)
  case Nil
  then show ?case by simp
next
  case (Cons kv item)
  obtain key vd where kv: "kv = (key, vd)" by (cases kv)
  with Cons.prems(1) obtain v where
    v: "decode_value rt vd = Inr v" "decode_fields rt item (AList.update key v acc) = Inr readable"
    by (auto simp: bind_eq_Inr)
  from Cons.prems(2) kv consider "(field, value_dict) = (key, vd)" | "(field, value_dict) \<in> set item"
    by auto
  then show ?case
  proof cases
    case 1
    with v show ?thesis by auto
  next
    case 2
    from Cons.IH [OF v(2) 2] show ?thesis .
  qed
qed

lemma decode_fields_map_of:
  "decode_fields rt item acc = Inr readable \<Longrightarrow> distinct (map fst item) \<Longrightarrow>
   map_of readable field =
     (case map_of item field of
        None \<Rightarrow> map_of acc field
      | Some value_dict \<Rightarrow> (case decode_value rt value_dict of Inl e \<Rightarrow> None | Inr v \<Rightarrow> Some v))"
proof (induction item arbitrary: acc)
  case Nil
  then show ?case by simp
next
  case (Cons kv item)
  obtain key vd where kv: "kv = (key, vd)" by (cases kv)
  with Cons.prems(1) obtain v where
    v: "decode_value rt vd = Inr v" "decode_fields rt item (AList.update key v acc) = Inr readable"
    by (auto simp: bind_eq_Inr)
  from Cons.prems(2) kv have d: "distinct (map fst item)" and k: "map_of item key = None"
    by (auto simp: map_of_eq_None_iff)
  note ih = Cons.IH [OF v(2) d]
  show ?case
  proof (cases "field = key")
    case True
    with ih k v(1) kv show ?thesis by (simp add: update_conv')
  next
    case False
    with ih kv show ?thesis by (simp add: update_conv' split: option.splits)
  qed
qed

lemma decode_fields_keys:
  "decode_fields rt item acc = Inr readable \<Longrightarrow> distinct (map fst item) \<Longrightarrow>
   set (map fst item) \<inter> set (map fst acc) = {} \<Longrightarrow>
   map fst readable = map fst acc @ map fst item"
proof (induction item arbitrary: acc)
  case Nil
  then show ?case by simp
next
  case (Cons kv item)
  obtain key vd where kv: "kv = (key, vd)" by (cases kv)
  with Cons.prems(1) obtain v where
    v: "decode_value rt vd = Inr v" "decode_fields rt item (AList.update key v acc) = Inr readable"
    by (auto simp: bind_eq_Inr)
  from Cons.prems(2,3) kv have d: "distinct (map fst item)"
    and n: "key \<notin> set (map fst acc)" "key \<notin> set (map fst item)"
    and i: "set (map fst item) \<inter> set (map fst acc) = {}"
    by auto
  from n have u: "map fst (AList.update key v acc) = map fst acc @ [key]"
    by (simp add: update_keys)
  with n i have "set (map fst item) \<inter> set (map fst (AList.update key v acc)) = {}"
    by auto
  from Cons.IH [OF v(2) d this] u kv show ?case by simp
qed

lemma decode_fields_total:
  "(\<And>field value_dict. (field, value_dict) \<in> set item \<Longrightarrow> \<exists>v. decode_value rt value_dict = Inr v) \<Longrightarrow>
   \<exists>readable. decode_fields rt item acc = Inr readable"
proof (induction item arbitrary: acc)
  case Nil
  then show ?case by simp
next
  case (Cons kv item)
  obtain key vd where kv: "kv = (key, vd)" by (cases kv)
  with Cons.prems obtain v where v: "decode_value rt vd = Inr v" by force
  have "\<exists>readable. decode_fields rt item (AList.update key v acc) = Inr readable"
    by (rule Cons.IH) (use Cons.prems in auto)
  with v kv show ?case by simp
qed

lemma py_int_10: "py_int ''10'' = Some 10"
  by (simp add: py_int_def strip_int_space_def is_int_space_def unsigned_literal_def
      int_max_str_digits_def is_ascii_digit_def digit_value_def)

lemma py_int_abc: "py_int ''abc'' = None"
  by (simp add: py_int_def strip_int_space_def is_int_space_def unsigned_literal_def
      int_max_str_digits_def is_ascii_digit_def digit_value_def)

subsection \<open>The text of an integer, read back by \<^verbatim>\<open>int\<close>\<close>

lemma digit_char_digit:
  assumes "d < 10"
  shows "is_ascii_digit (digit_char d) \<and> digit_value (digit_char d) = d"
proof -
  from assms have "d = 0 \<or> d = 1 \<or> d = 2 \<or> d = 3 \<or> d = 4 \<or> d = 5 \<or> d = 6 \<or> d = 7 \<or> d = 8 \<or> d = 9"
    by arith
  then show ?thesis
    by (auto simp: digit_char_def is_ascii_digit_def digit_value_def)
qed

lemma str_of_nat_not_empty: "str_of_nat n \<noteq> []"
  by (subst str_of_nat.simps) simp

lemma str_of_nat_digits: "list_all is_ascii_digit (str_of_nat n)"
proof (induction n rule: str_of_nat.induct)
  case (1 n)
  show ?case
  proof (cases "n < 10")
    case True
    then show ?thesis by (subst str_of_nat.simps) (simp add: digit_char_digit)
  next
    case False
    with 1 show ?thesis by (subst str_of_nat.simps) (simp add: digit_char_digit)
  qed
qed

lemma str_of_nat_value: "foldl (\<lambda>a c. a * 10 + digit_value c) 0 (str_of_nat n) = n"
proof (induction n rule: str_of_nat.induct)
  case (1 n)
  show ?case
  proof (cases "n < 10")
    case True
    then show ?thesis by (subst str_of_nat.simps) (simp add: digit_char_digit)
  next
    case False
    with 1 show ?thesis by (subst str_of_nat.simps) (simp add: digit_char_digit)
  qed
qed

lemma str_of_nat_leading_zero:
  assumes "hd (str_of_nat n) = CHR ''0''"
  shows "n = 0"
  using assms
proof (induction n rule: str_of_nat.induct)
  case (1 n)
  show ?case
  proof (cases "n < 10")
    case True
    with 1(2) have "digit_char n = CHR ''0''"
      by (subst (asm) str_of_nat.simps) simp
    then have "digit_value (digit_char n) = 0" by (simp add: digit_value_def)
    with True show ?thesis by (simp add: digit_char_digit)
  next
    case False
    with 1(2) have "hd (str_of_nat (n div 10)) = CHR ''0''"
      by (subst (asm) str_of_nat.simps) (simp add: str_of_nat_not_empty)
    with 1(1) False have "n div 10 = 0" by simp
    with False show ?thesis by simp
  qed
qed

lemma str_of_nat_0: "str_of_nat 0 = ''0''"
  by (subst str_of_nat.simps) (simp add: digit_char_def)

lemma digits_after_digits:
  "list_all is_ascii_digit ds \<Longrightarrow>
   digits_after acc ds = Some (foldl (\<lambda>a c. a * 10 + digit_value c) acc ds)"
  by (induction acc ds rule: digits_after.induct) simp_all

lemma unsigned_literal_str_of_nat:
  assumes "length (str_of_nat n) \<le> int_max_str_digits"
  shows "unsigned_literal (str_of_nat n) = Some n"
proof -
  obtain d ds where s: "str_of_nat n = d # ds"
    using str_of_nat_not_empty [of n] by (cases "str_of_nat n") auto
  have a: "list_all is_ascii_digit (d # ds)"
    using str_of_nat_digits [of n] s by simp
  then have f: "filter is_ascii_digit (d # ds) = d # ds"
    by (simp add: list_all_iff)
  from a have "digits_after (digit_value d) ds =
      Some (foldl (\<lambda>a c. a * 10 + digit_value c) (digit_value d) ds)"
    by (simp add: digits_after_digits)
  also have "foldl (\<lambda>a c. a * 10 + digit_value c) (digit_value d) ds =
      foldl (\<lambda>a c. a * 10 + digit_value c) 0 (str_of_nat n)"
    by (simp add: s)
  finally have "digits_after (digit_value d) ds = Some n"
    by (simp add: str_of_nat_value)
  with a f assms s show ?thesis
    by (simp add: unsigned_literal_def del: filter.simps)
qed

lemma digit_not_int_space: "is_ascii_digit c \<Longrightarrow> \<not> is_int_space c"
  by (auto simp: is_ascii_digit_def is_int_space_def)

lemma strip_int_space_self:
  assumes "s \<noteq> []" and "\<not> is_int_space (hd s)" and "\<not> is_int_space (last s)"
  shows "strip_int_space s = s"
proof -
  from assms have "dropWhile is_int_space s = s"
    by (simp add: dropWhile_eq_self_iff)
  moreover from assms have "dropWhile is_int_space (rev s) = rev s"
    by (simp add: dropWhile_eq_self_iff hd_rev)
  ultimately show ?thesis by (simp add: strip_int_space_def)
qed

lemma str_of_nat_last_digit: "is_ascii_digit (last (str_of_nat n))"
  using str_of_nat_digits [of n] str_of_nat_not_empty [of n]
  by (simp add: list_all_iff)

lemma str_of_nat_hd_digit: "is_ascii_digit (hd (str_of_nat n))"
  using str_of_nat_digits [of n] str_of_nat_not_empty [of n]
  by (cases "str_of_nat n") simp_all

lemma py_int_str_of_int:
  assumes "length (str_of_nat (nat \<bar>i\<bar>)) \<le> int_max_str_digits"
  shows "py_int (str_of_int i) = Some i"
proof (cases "i < 0")
  case True
  let ?n = "nat (- i)"
  from True have n: "nat \<bar>i\<bar> = ?n" by simp
  have m: "\<not> is_int_space (CHR ''-'')" by (simp add: is_int_space_def)
  have "strip_int_space (CHR ''-'' # str_of_nat ?n) = CHR ''-'' # str_of_nat ?n"
    using str_of_nat_last_digit [of ?n] str_of_nat_not_empty [of ?n] m
    by (intro strip_int_space_self) (simp_all add: digit_not_int_space)
  with True assms n show ?thesis
    by (simp add: py_int_def str_of_int_def unsigned_literal_str_of_nat)
next
  case False
  let ?n = "nat i"
  from False have n: "nat \<bar>i\<bar> = ?n" by simp
  obtain d ds where s: "str_of_nat ?n = d # ds"
    using str_of_nat_not_empty [of ?n] by (cases "str_of_nat ?n") auto
  have d: "is_ascii_digit d" using str_of_nat_hd_digit [of ?n] s by simp
  then have dd: "d \<noteq> CHR ''-''" "d \<noteq> CHR ''+''"
    by (auto simp: is_ascii_digit_def)
  have "strip_int_space (str_of_nat ?n) = str_of_nat ?n"
    using str_of_nat_last_digit [of ?n] str_of_nat_hd_digit [of ?n] str_of_nat_not_empty [of ?n]
    by (intro strip_int_space_self) (simp_all add: digit_not_int_space)
  moreover have "unsigned_literal (d # ds) = Some ?n"
    using unsigned_literal_str_of_nat [of ?n] assms n s by simp
  ultimately show ?thesis using False s dd
    by (simp add: py_int_def str_of_int_def)
qed

subsection \<open>A string, read back from its quoted text\<close>

lemma hex_value_hex_char:
  assumes "d < 16"
  shows "hex_value (hex_char d) = Some d"
proof -
  have m: "map hex_value ''0123456789abcdef'' = map Some [0..<16]"
    by (simp add: hex_value_def upt_conv_Cons)
  from assms have "hex_value (''0123456789abcdef'' ! d) = map hex_value ''0123456789abcdef'' ! d"
    by (subst nth_map) simp_all
  also from assms have "\<dots> = Some d"
    unfolding m by (subst nth_map) simp_all
  finally show ?thesis by (simp add: hex_char_def)
qed

lemma scan_string_escape: "scan_string (json_escape c @ rest) = push c (scan_string rest)"
proof -
  let ?n = "of_char c :: nat"
  have "?n < 256" by (rule nat_of_char_less_256)
  then have n: "?n div 16 < 16" "?n mod 16 < 16" by arith+
  have "16 * (?n div 16) + ?n mod 16 = ?n" by simp
  then have c: "char_of (16 * (?n div 16) + ?n mod 16) = c" by simp
  have z: "hex_value (CHR ''0'') = Some 0" by (simp add: hex_value_def)
  show ?thesis
    by (simp add: json_escape_def unescape_def hex_value_hex_char n c z)
qed

lemma scan_string_quoted:
  "scan_string (concat (map json_escape s) @ CHR ''\"'' # r) = Some (s, r)"
  by (induction s) (simp_all add: scan_string_escape push_def)

lemma push_Some: "push c r = Some (s, rest) \<longleftrightarrow> (\<exists>s'. r = Some (s', rest) \<and> s = c # s')"
  by (cases r) (auto simp: push_def)

lemma scan_string_append:
  "scan_string cs = Some (s, r) \<Longrightarrow> scan_string (cs @ x) = Some (s, r @ x)"
proof (induction "length cs" arbitrary: cs s r rule: less_induct)
  case less
  from less(2) obtain c cs' where cs: "cs = c # cs'"
    by (cases cs) auto
  show ?case
  proof (cases "c = CHR ''\"''")
    case True
    with less(2) cs show ?thesis by simp
  next
    case quote: False
    show ?thesis
    proof (cases "c = CHR 0x5C")
      case False
      with quote less(2) cs obtain s' where a: "\<not> (of_char c :: nat) < 32"
        "scan_string cs' = Some (s', r)" "s = c # s'"
        by (auto simp: push_Some split: if_splits)
      from cs have "length cs' < length cs" by simp
      from less(1) [OF this a(2)] a quote False cs show ?thesis
        by (simp add: push_def)
    next
      case True
      with less(2) cs obtain e r0 where r0: "cs' = e # r0"
        by (cases cs') auto
      show ?thesis
      proof (cases "e = CHR ''u''")
        case False
        with True cs r0 less(2) obtain ch s' where a: "unescape e = Some ch"
          "scan_string r0 = Some (s', r)" "s = ch # s'"
          by (auto simp: push_Some split: option.splits)
        from cs r0 have "length r0 < length cs" by simp
        from less(1) [OF this a(2)] a True cs r0 False show ?thesis
          by (simp add: push_def)
      next
        case u: True
        with True cs r0 less(2) obtain h1 h2 h3 h4 r' where r': "r0 = h1 # h2 # h3 # h4 # r'"
          by (auto split: list.splits)
        with True cs r0 u less(2) obtain xx yy s' where h:
          "hex_value h1 = Some 0" "hex_value h2 = Some 0" "hex_value h3 = Some xx"
          "hex_value h4 = Some yy"
          "scan_string r' = Some (s', r)" "s = char_of (16 * xx + yy) # s'"
          by (auto simp: push_Some split: option.splits if_splits)
        from cs r0 r' have "length r' < length cs" by simp
        from less(1) [OF this h(5)] h True cs r0 u r' show ?thesis
          by (simp add: push_def)
      qed
    qed
  qed
qed

subsection \<open>A value, read back from its text\<close>

lemma scan_value_not_space:
  assumes "scan_value rt s = Some (v, r)"
  shows "s \<noteq> [] \<and> \<not> is_json_space (hd s)"
proof (cases s)
  case Nil
  with assms show ?thesis by (simp add: scan_value_def)
next
  case (Cons c cs)
  have "scan_value rt (c # cs) = None" if c: "is_json_space c"
  proof -
    from c have d: "c \<noteq> CHR ''-''" "\<not> is_ascii_digit c"
      by (auto simp: is_json_space_def is_ascii_digit_def)
    then have "scan_integer (c # cs) = None"
      by (simp add: scan_integer_def scan_minus_def)
    then have n: "scan_number rt (c # cs) = None"
      by (simp add: scan_number_def)
    from c have "c \<noteq> CHR ''\"''" "c \<noteq> CHR ''n''" "c \<noteq> CHR ''t''" "c \<noteq> CHR ''f''"
      "c \<noteq> CHR ''N''" "c \<noteq> CHR ''I''"
      by (auto simp: is_json_space_def)
    with d n show ?thesis
      by (simp add: scan_value_def)
  qed
  with assms Cons show ?thesis by auto
qed

lemma skip_space_self: "s \<noteq> [] \<and> \<not> is_json_space (hd s) \<Longrightarrow> skip_space s = s"
  by (simp add: skip_space_def dropWhile_eq_self_iff)

lemma scan_value_quoted: "scan_value rt (json_quote s) = Some (PStr s, [])"
  by (simp add: scan_value_def json_quote_def scan_string_quoted)

lemma scan_integer_digits:
  assumes "m = [] \<or> m = ''-''"
  shows "scan_integer (m @ str_of_nat n) = Some (m @ str_of_nat n, [])"
proof -
  obtain d ds where s: "str_of_nat n = d # ds"
    using str_of_nat_not_empty [of n] by (cases "str_of_nat n") auto
  have a: "list_all is_ascii_digit (d # ds)"
    using str_of_nat_digits [of n] s by simp
  then have t: "takeWhile is_ascii_digit (d # ds) = d # ds" "dropWhile is_ascii_digit (d # ds) = []"
    by (simp_all add: list_all_iff)
  from a have dm: "d \<noteq> CHR ''-''" by (auto simp: is_ascii_digit_def)
  have z: "ds = []" if "d = CHR ''0''"
  proof -
    from that s have "n = 0" using str_of_nat_leading_zero [of n] by simp
    with s show ?thesis by (simp add: str_of_nat_0)
  qed
  from assms have "scan_minus (m @ d # ds) = (m, d # ds)"
    using dm by (auto simp: scan_minus_def)
  with a z show ?thesis
    by (auto simp: scan_integer_def s list_all_iff)
qed

lemma scan_value_int:
  assumes "length (str_of_nat (nat \<bar>i\<bar>)) \<le> int_max_str_digits"
  shows "scan_value rt (str_of_int i) = Some (PInt i, [])"
proof -
  define m :: string where "m = (if i < 0 then ''-'' else [])"
  define n where "n = nat \<bar>i\<bar>"
  have s: "str_of_int i = m @ str_of_nat n"
    by (simp add: str_of_int_def m_def n_def)
  have m: "m = [] \<or> m = ''-''" by (simp add: m_def)
  have "scan_integer (str_of_int i) = Some (str_of_int i, [])"
    unfolding s using m by (rule scan_integer_digits)
  then have sn: "scan_number rt (str_of_int i) = Some (PInt i, [])"
    using py_int_str_of_int [OF assms]
    by (simp add: scan_number_def scan_fraction_def scan_exponent_def)
  obtain d ds where b: "str_of_nat n = d # ds" "is_ascii_digit d"
    using str_of_nat_not_empty [of n] str_of_nat_hd_digit [of n] by (cases "str_of_nat n") auto
  from b(2) have d: "d \<noteq> CHR ''\"''" "d \<noteq> CHR ''n''" "d \<noteq> CHR ''t''" "d \<noteq> CHR ''f''" "d \<noteq> CHR ''N''"
    "d \<noteq> CHR ''I''" "d \<noteq> CHR ''-''"
    by (auto simp: is_ascii_digit_def)
  from m show ?thesis
  proof
    assume "m = []"
    with s b have e: "str_of_int i = d # ds" by simp
    from sn d show ?thesis unfolding e by (simp add: scan_value_def)
  next
    assume "m = ''-''"
    with s b have e: "str_of_int i = CHR ''-'' # d # ds" by simp
    from sn d show ?thesis unfolding e by (simp add: scan_value_def)
  qed
qed

subsection \<open>A value followed by a separator\<close>

lemma prefix_before_separator:
  assumes "d \<notin> set p"
  shows "prefix p (t @ d # r) \<longleftrightarrow> prefix p t"
proof
  assume "prefix p (t @ d # r)"
  then consider "prefix p t" | us where "p = t @ us" "prefix us (d # r)"
    by (auto simp: prefix_append)
  then show "prefix p t"
  proof cases
    case 1
    then show ?thesis .
  next
    case 2
    with assms show ?thesis by (cases us) auto
  qed
next
  assume "prefix p t"
  then show "prefix p (t @ d # r)" by (rule prefix_prefix)
qed

lemma scan_minus_append:
  "t \<noteq> [] \<Longrightarrow> scan_minus (t @ x) = (fst (scan_minus t), snd (scan_minus t) @ x)"
  by (cases t) (simp_all add: scan_minus_def)

lemma scan_integer_append:
  assumes "scan_integer t = Some (n, r1)" and "\<not> is_ascii_digit d"
  shows "scan_integer (t @ d # r) = Some (n, r1 @ d # r)"
proof -
  from assms(1) have ne: "t \<noteq> []"
    by (auto simp: scan_integer_def scan_minus_def)
  obtain minus body where m: "scan_minus t = (minus, body)"
    by (cases "scan_minus t") auto
  with ne have m': "scan_minus (t @ d # r) = (minus, body @ d # r)"
    by (simp add: scan_minus_append)
  from assms(1) m have b: "body \<noteq> []"
    by (auto simp: scan_integer_def)
  from assms(1) m show ?thesis
    using assms(2) b
    by (auto simp: scan_integer_def m' takeWhile_tail dropWhile_append3 split: list.splits if_splits)
qed

lemma scan_fraction_append:
  assumes "\<not> is_ascii_digit d" and "d \<noteq> CHR ''.''"
  shows "scan_fraction (s @ d # r) = (fst (scan_fraction s), snd (scan_fraction s) @ d # r)"
  using assms
  by (cases s) (simp_all add: scan_fraction_def takeWhile_tail dropWhile_append3)

lemma scan_sign_append:
  assumes "d \<noteq> CHR ''+''" and "d \<noteq> CHR ''-''"
  shows "scan_sign (s @ d # r) = (fst (scan_sign s), snd (scan_sign s) @ d # r)"
  using assms
  by (cases s) (simp_all add: scan_sign_def)

lemma scan_exponent_append:
  assumes "\<not> is_ascii_digit d" and "d \<noteq> CHR ''+''" and "d \<noteq> CHR ''-''"
    and "d \<noteq> CHR ''e''" and "d \<noteq> CHR ''E''"
  shows "scan_exponent (s @ d # r) = (fst (scan_exponent s), snd (scan_exponent s) @ d # r)"
proof (cases s)
  case Nil
  with assms show ?thesis by (simp add: scan_exponent_def scan_sign_def)
next
  case (Cons c cs)
  from assms have "scan_sign (cs @ d # r) = (fst (scan_sign cs), snd (scan_sign cs) @ d # r)"
    by (simp add: scan_sign_append)
  with assms Cons show ?thesis
    by (simp add: scan_exponent_def takeWhile_tail dropWhile_append3)
qed

lemma scan_number_append:
  assumes "scan_number rt t = Some (v, rest)" and "d = CHR '','' \<or> d = CHR ''}''"
  shows "scan_number rt (t @ d # r) = Some (v, rest @ d # r)"
proof -
  from assms(2) have d: "\<not> is_ascii_digit d" "d \<noteq> CHR ''.''" "d \<noteq> CHR ''+''" "d \<noteq> CHR ''-''"
    "d \<noteq> CHR ''e''" "d \<noteq> CHR ''E''"
    by (auto simp: is_ascii_digit_def)
  from assms(1) obtain n r1 where i: "scan_integer t = Some (n, r1)"
    by (auto simp: scan_number_def split: option.splits)
  from scan_integer_append [OF i d(1)]
  have i': "scan_integer (t @ d # r) = Some (n, r1 @ d # r)" .
  have f: "scan_fraction (r1 @ d # r) = (fst (scan_fraction r1), snd (scan_fraction r1) @ d # r)"
    using d by (simp add: scan_fraction_append)
  have e: "scan_exponent (snd (scan_fraction r1) @ d # r) =
      (fst (scan_exponent (snd (scan_fraction r1))),
       snd (scan_exponent (snd (scan_fraction r1))) @ d # r)"
    using d by (simp add: scan_exponent_append)
  from assms(1) show ?thesis
    by (auto simp: scan_number_def i i' f e case_prod_beta Let_def split: if_splits)
qed

lemma scan_value_unfold:
  "scan_value rt s =
     (if s = [] then None
      else if hd s = CHR ''\"'' then map_option (\<lambda>(t, r). (PStr t, r)) (scan_string (tl s))
      else if prefix ''null'' s then Some (PNone, drop 4 s)
      else if prefix ''true'' s then Some (PBool True, drop 4 s)
      else if prefix ''false'' s then Some (PBool False, drop 5 s)
      else if prefix ''NaN'' s then map_option (\<lambda>x. (PFloat x, drop 3 s)) (float_of_str rt ''nan'')
      else if prefix ''Infinity'' s then map_option (\<lambda>x. (PFloat x, drop 8 s)) (float_of_str rt ''inf'')
      else if prefix ''-Infinity'' s then map_option (\<lambda>x. (PFloat x, drop 9 s)) (float_of_str rt ''-inf'')
      else scan_number rt s)"
proof (cases s)
  case Nil
  then show ?thesis by (simp add: scan_value_def)
next
  case (Cons c cs)
  show ?thesis
    unfolding Cons by (simp only: scan_value_def list.simps list.sel if_False)
qed

lemma drop_keyword:
  assumes "prefix p t" and "length p = k"
  shows "drop k (t @ x) = drop k t @ x"
  using prefix_length_le [OF assms(1)] assms(2) by simp

lemma scan_value_append:
  assumes "scan_value rt t = Some (v, rest)" and "d = CHR '','' \<or> d = CHR ''}''"
  shows "scan_value rt (t @ d # r) = Some (v, rest @ d # r)"
proof -
  from assms(1) have ne: "t \<noteq> []"
    by (auto simp: scan_value_def)
  have k: "prefix ''null'' (t @ d # r) = prefix ''null'' t"
    "prefix ''true'' (t @ d # r) = prefix ''true'' t"
    "prefix ''false'' (t @ d # r) = prefix ''false'' t"
    "prefix ''NaN'' (t @ d # r) = prefix ''NaN'' t"
    "prefix ''Infinity'' (t @ d # r) = prefix ''Infinity'' t"
    "prefix ''-Infinity'' (t @ d # r) = prefix ''-Infinity'' t"
    using assms(2) by (auto intro!: prefix_before_separator)
  have dr: "prefix ''null'' t \<Longrightarrow> drop 4 (t @ d # r) = drop 4 t @ d # r"
    "prefix ''true'' t \<Longrightarrow> drop 4 (t @ d # r) = drop 4 t @ d # r"
    "prefix ''false'' t \<Longrightarrow> drop 5 (t @ d # r) = drop 5 t @ d # r"
    "prefix ''NaN'' t \<Longrightarrow> drop 3 (t @ d # r) = drop 3 t @ d # r"
    "prefix ''Infinity'' t \<Longrightarrow> drop 8 (t @ d # r) = drop 8 t @ d # r"
    "prefix ''-Infinity'' t \<Longrightarrow> drop 9 (t @ d # r) = drop 9 t @ d # r"
    by (erule drop_keyword, simp)+
  show ?thesis
  proof (cases "hd t = CHR ''\"''")
    case True
    with assms(1) ne obtain s where a: "scan_string (tl t) = Some (s, rest)" "v = PStr s"
      by (subst (asm) scan_value_unfold) auto
    from scan_string_append [OF a(1), of "d # r"] True ne a(2) show ?thesis
      by (subst scan_value_unfold) simp
  next
    case False
    show ?thesis
    proof (cases "prefix ''null'' t \<or> prefix ''true'' t \<or> prefix ''false'' t \<or> prefix ''NaN'' t \<or>
        prefix ''Infinity'' t \<or> prefix ''-Infinity'' t")
      case True
      have u: "scan_value rt t =
         (if prefix ''null'' t then Some (PNone, drop 4 t)
          else if prefix ''true'' t then Some (PBool True, drop 4 t)
          else if prefix ''false'' t then Some (PBool False, drop 5 t)
          else if prefix ''NaN'' t then map_option (\<lambda>x. (PFloat x, drop 3 t)) (float_of_str rt ''nan'')
          else if prefix ''Infinity'' t then map_option (\<lambda>x. (PFloat x, drop 8 t)) (float_of_str rt ''inf'')
          else if prefix ''-Infinity'' t then map_option (\<lambda>x. (PFloat x, drop 9 t)) (float_of_str rt ''-inf'')
          else scan_number rt t)"
        using False ne by (subst scan_value_unfold) simp
      have u': "scan_value rt (t @ d # r) =
         (if prefix ''null'' t then Some (PNone, drop 4 t @ d # r)
          else if prefix ''true'' t then Some (PBool True, drop 4 t @ d # r)
          else if prefix ''false'' t then Some (PBool False, drop 5 t @ d # r)
          else if prefix ''NaN'' t then map_option (\<lambda>x. (PFloat x, drop 3 t @ d # r)) (float_of_str rt ''nan'')
          else if prefix ''Infinity'' t then map_option (\<lambda>x. (PFloat x, drop 8 t @ d # r)) (float_of_str rt ''inf'')
          else if prefix ''-Infinity'' t then map_option (\<lambda>x. (PFloat x, drop 9 t @ d # r)) (float_of_str rt ''-inf'')
          else scan_number rt (t @ d # r))"
        using False ne by (subst scan_value_unfold) (simp add: k dr del: drop_append cong: if_cong)
      from assms(1) True show ?thesis unfolding u u'
        by (auto split: if_splits)
    next
      case kw: False
      with assms(1) ne False have "scan_number rt t = Some (v, rest)"
        by (subst (asm) scan_value_unfold) simp
      from scan_number_append [OF this assms(2), of r] kw False ne show ?thesis
        by (subst scan_value_unfold) (simp add: k)
    qed
  qed
qed

subsection \<open>The text of a record, read back\<close>

lemma collect_map_Inr:
  "collect (map f xs) = Inr ys \<Longrightarrow> list_all2 (\<lambda>x y. f x = Inr y) xs ys"
proof (induction xs arbitrary: ys)
  case Nil
  then show ?case by simp
next
  case (Cons x xs)
  then show ?case by (auto split: sum.splits)
qed

lemma collect_Inr:
  "(\<And>m. m \<in> set ms \<Longrightarrow> \<exists>x. m = Inr x) \<Longrightarrow> \<exists>xs. collect ms = Inr xs"
proof (induction ms)
  case Nil
  then show ?case by simp
next
  case (Cons m ms)
  then obtain x where "m = Inr x" by force
  moreover from Cons obtain xs where "collect ms = Inr xs" by force
  ultimately show ?case by simp
qed

lemma json_dumps_record:
  assumes "json_dumps rt (PDict d) = Inr t"
  shows "\<exists>ts. list_all2 (\<lambda>kv m. \<exists>tv. json_dumps rt (snd kv) = Inr tv \<and>
             m = json_quote (fst kv) @ '': '' @ tv) d ts \<and>
           t = ''{'' @ join '', '' ts @ ''}''"
proof -
  let ?member = "\<lambda>kv. bind (json_dumps rt (snd kv)) (\<lambda>t. Inr (json_quote (fst kv) @ '': '' @ t))"
  from assms obtain ts where c: "collect (map ?member d) = Inr ts"
    and t: "t = ''{'' @ join '', '' ts @ ''}''"
    by (auto simp: bind_eq_Inr)
  from collect_map_Inr [OF c] have "list_all2 (\<lambda>kv m. ?member kv = Inr m) d ts" .
  then have "list_all2 (\<lambda>kv m. \<exists>tv. json_dumps rt (snd kv) = Inr tv \<and>
             m = json_quote (fst kv) @ '': '' @ tv) d ts"
    by (rule list_all2_mono) (auto simp: bind_eq_Inr)
  with t show ?thesis by blast
qed

lemma scan_value_scalar:
  assumes "is_scalar v" and "float_read_back rt v" and "json_dumps rt v = Inr tv"
  shows "scan_value rt tv = Some (v, [])"
proof (cases v)
  case (PInt i)
  with assms(3) have "length (str_of_nat (nat \<bar>i\<bar>)) \<le> int_max_str_digits" "tv = str_of_int i"
    by (auto split: if_splits)
  with PInt show ?thesis by (simp add: scan_value_int)
next
  case (PFloat x)
  with assms show ?thesis by simp
next
  case (PStr s)
  with assms(3) show ?thesis by (auto simp: scan_value_quoted)
qed (use assms(1) in simp_all)

lemma join_Cons: "join sep (x # xs) = (if xs = [] then x else x @ sep @ join sep xs)"
  by (cases xs) simp_all

lemma length_join: "\<forall>m\<in>set ts. m \<noteq> [] \<Longrightarrow> length ts \<le> length (join sep ts)"
proof (induction ts)
  case Nil
  then show ?case by simp
next
  case (Cons m ts)
  then have "m \<noteq> []" "length ts \<le> length (join sep ts)" by simp_all
  then show ?case
    by (cases m) (auto simp: join_Cons)
qed

lemma skip_space_Cons:
  "skip_space (c # s) = (if is_json_space c then skip_space s else c # s)"
  by (simp add: skip_space_def)

lemma update_fresh: "k \<notin> fst ` set acc \<Longrightarrow> AList.update k v acc = acc @ [(k, v)]"
  by (induction acc) auto

lemma fold_update_fresh:
  "distinct (map fst d) \<Longrightarrow> fst ` set acc \<inter> fst ` set d = {} \<Longrightarrow>
   fold (\<lambda>kv. AList.update (fst kv) (snd kv)) d acc = acc @ d"
proof (induction d arbitrary: acc)
  case Nil
  then show ?case by simp
next
  case (Cons kv d)
  from Cons.prems have f: "fst kv \<notin> fst ` set acc" by auto
  then have u: "AList.update (fst kv) (snd kv) acc = acc @ [kv]"
    by (simp add: update_fresh)
  from Cons.prems have "distinct (map fst d)" "fst ` set (acc @ [kv]) \<inter> fst ` set d = {}"
    by auto
  from Cons.IH [OF this] u show ?case by simp
qed

text \<open>One member, from the quote that opens its key to the separator after its value.\<close>

lemma scan_member:
  assumes "scan_value rt tv = Some (v, [])" and "d = CHR '','' \<or> d = CHR ''}''"
  shows "scan_members (Suc n) rt acc (json_quote k @ '': '' @ tv @ d # r) =
     (if d = CHR '','' then scan_members n rt (AList.update k v acc) (skip_space r)
      else Some (AList.update k v acc, r))"
proof -
  let ?after_key = "CHR '':'' # CHR '' '' # tv @ d # r"
  have doc: "json_quote k @ '': '' @ tv @ d # r =
      CHR ''\"'' # concat (map json_escape k) @ CHR ''\"'' # ?after_key"
    by (simp add: json_quote_def)
  have key: "scan_string (concat (map json_escape k) @ CHR ''\"'' # ?after_key) = Some (k, ?after_key)"
    by (rule scan_string_quoted)
  have colon: "skip_space ?after_key = ?after_key"
    by (simp add: skip_space_Cons is_json_space_def)
  from scan_value_not_space [OF assms(1)] have "skip_space (tv @ d # r) = tv @ d # r"
    by (intro skip_space_self) simp
  then have blank: "skip_space (CHR '' '' # tv @ d # r) = tv @ d # r"
    by (simp add: skip_space_Cons is_json_space_def)
  from scan_value_append [OF assms, of r]
  have val: "scan_value rt (tv @ d # r) = Some (v, d # r)" by simp
  from assms(2) have sep: "skip_space (d # r) = d # r"
    by (auto simp: skip_space_Cons is_json_space_def)
  from assms(2) show ?thesis
    unfolding doc
    by (simp only: scan_members.simps list.case key colon blank val sep option.case prod.case
        if_True if_False simp_thms split: if_splits) auto
qed

lemma scan_members_record:
  assumes "list_all2 (\<lambda>kv m. \<exists>tv. scan_value rt tv = Some (snd kv, []) \<and>
             m = json_quote (fst kv) @ '': '' @ tv) d ts"
    and "d \<noteq> []" and "length d \<le> n"
  shows "scan_members n rt acc (join '', '' ts @ CHR ''}'' # r) =
     Some (fold (\<lambda>kv. AList.update (fst kv) (snd kv)) d acc, r)"
  using assms
proof (induction d ts arbitrary: n acc rule: list_all2_induct)
  case Nil
  then show ?case by simp
next
  case (Cons kv d m ts)
  from Cons.hyps(1) obtain tv where tv: "scan_value rt tv = Some (snd kv, [])"
    and m: "m = json_quote (fst kv) @ '': '' @ tv"
    by blast
  from Cons.prems obtain n' where n: "n = Suc n'" "length d \<le> n'"
    by (cases n) auto
  show ?case
  proof (cases "d = []")
    case True
    with Cons.hyps(2) have ts: "ts = []" by simp
    have "scan_members (Suc n') rt acc (json_quote (fst kv) @ '': '' @ tv @ CHR ''}'' # r) =
        Some (AList.update (fst kv) (snd kv) acc, r)"
      by (subst scan_member [OF tv]) simp_all
    with True ts m n show ?thesis by simp
  next
    case False
    with Cons.hyps(2) obtain m' ts' where ts: "ts = m' # ts'"
      by (cases ts) auto
    from False Cons.hyps(2) ts obtain kv' d' where d: "d = kv' # d'"
      by (cases d) auto
    from Cons.hyps(2) ts d obtain y where m': "m' = CHR ''\"'' # y"
      by (auto simp: json_quote_def)
    have start: "skip_space (CHR '' '' # join '', '' ts @ CHR ''}'' # r) = join '', '' ts @ CHR ''}'' # r"
      by (simp add: ts m' join_Cons skip_space_Cons is_json_space_def)
    have "join '', '' (m # ts) @ CHR ''}'' # r =
        json_quote (fst kv) @ '': '' @ tv @ CHR '','' # (CHR '' '' # join '', '' ts @ CHR ''}'' # r)"
      by (simp add: m ts join_Cons)
    then have "scan_members (Suc n') rt acc (join '', '' (m # ts) @ CHR ''}'' # r) =
        scan_members n' rt (AList.update (fst kv) (snd kv) acc) (join '', '' ts @ CHR ''}'' # r)"
      using scan_member [OF tv, of "CHR '',''" n' acc "fst kv"
          "CHR '' '' # join '', '' ts @ CHR ''}'' # r"] start
      by simp
    also have "\<dots> = Some (fold (\<lambda>kv. AList.update (fst kv) (snd kv)) d
        (AList.update (fst kv) (snd kv) acc), r)"
      using False n by (intro Cons.IH) simp_all
    finally show ?thesis by (simp add: n)
  qed
qed

lemma loads_flat_record:
  assumes "list_all2 (\<lambda>kv m. \<exists>tv. scan_value rt tv = Some (snd kv, []) \<and>
             m = json_quote (fst kv) @ '': '' @ tv) d ts"
    and "distinct (map fst d)"
  shows "loads_flat rt (''{'' @ join '', '' ts @ ''}'') = Some (PDict d)"
proof (cases "d = []")
  case True
  with assms(1) have "ts = []" by simp
  with True show ?thesis
    by (simp add: loads_flat_def skip_space_Cons is_json_space_def skip_space_def)
next
  case False
  let ?s = "''{'' @ join '', '' ts @ ''}''"
  from False assms(1) obtain m ts' where ts: "ts = m # ts'"
    by (cases ts) auto
  from False assms(1) ts obtain kv d' where d: "d = kv # d'"
    by (cases d) auto
  from assms(1) ts d obtain y where m: "m = CHR ''\"'' # y"
    by (auto simp: json_quote_def)
  have ne: "\<forall>m\<in>set ts. m \<noteq> []"
    using assms(1) by (induction rule: list_all2_induct) (auto simp: json_quote_def)
  have "length d = length ts" using assms(1) by (rule list_all2_lengthD)
  also have "\<dots> \<le> length (join '', '' ts)" using ne by (rule length_join)
  finally have fuel: "length d \<le> length ?s" by simp
  obtain z where z: "join '', '' ts @ ''}'' = CHR ''\"'' # z"
    by (cases "ts' = []") (auto simp: ts m join_Cons)
  have "scan_members (length ?s) rt [] (join '', '' ts @ CHR ''}'' # []) =
      Some (fold (\<lambda>kv. AList.update (fst kv) (snd kv)) d [], [])"
    using assms(1) False fuel by (rule scan_members_record)
  also have "fold (\<lambda>kv. AList.update (fst kv) (snd kv)) d [] = d"
    using fold_update_fresh [OF assms(2), of "[]"] by simp
  finally have members: "scan_members (length ?s) rt [] (CHR ''\"'' # z) = Some (d, [])"
    using z by simp
  have "loads_flat rt (CHR ''{'' # CHR ''\"'' # z) = Some (PDict d)"
    using members z
    by (simp add: loads_flat_def skip_space_Cons is_json_space_def skip_space_def
        del: scan_members.simps)
  with z show ?thesis by simp
qed

lemma decode_fields_distinct:
  "decode_fields rt item acc = Inr readable \<Longrightarrow> distinct (map fst acc) \<Longrightarrow>
   distinct (map fst readable)"
proof (induction item arbitrary: acc)
  case Nil
  then show ?case by simp
next
  case (Cons field item)
  obtain key value_dict where f: "field = (key, value_dict)" by (cases field)
  from Cons.prems(1) f obtain v where v: "decode_value rt value_dict = Inr v"
    and r: "decode_fields rt item (AList.update key v acc) = Inr readable"
    by (auto simp: bind_eq_Inr)
  from Cons.prems(2) have "distinct (map fst (AList.update key v acc))"
    by (rule distinct_update)
  from Cons.IH [OF r this] show ?case .
qed

subsection \<open>The handler on an event that is an object\<close>

text \<open>
  On an event that is an object the handler always returns a well-formed envelope, and an
  exception that leaves the body of the outer \<^verbatim>\<open>try\<close>, whichever stage raised it (the
  extraction of the identifier, the query, the decoding of the item), is turned into the
  envelope with status 500 whose payload is \<^verbatim>\<open>{"error": "Internal server error: ..."}\<close>.
\<close>

lemma object_event_never_raises:
  "(\<exists>status body. returns (snd (lambda_handler rt client (PDict event))) status body) \<and>
   (\<forall>e. snd (handler_try rt client (PDict event)) = Inl e \<longrightarrow>
      returns (snd (lambda_handler rt client (PDict event))) 500
        (error_json (''Internal server error: '' @ str_exn rt e))) \<and>
   (\<forall>printed e. json_dumps rt (PDict event) = Inr printed \<and>
      extract_employee_id rt (PDict event) = Inl e \<longrightarrow>
      returns (snd (lambda_handler rt client (PDict event))) 500
        (error_json (''Internal server error: '' @ str_exn rt e))) \<and>
   (\<forall>printed uid e. json_dumps rt (PDict event) = Inr printed \<and>
      extract_employee_id rt (PDict event) = Inr uid \<and>
      snd (query rt client (PDict event) uid) = Inl e \<longrightarrow>
      returns (snd (lambda_handler rt client (PDict event))) 500
        (error_json (''Internal server error: '' @ str_exn rt e))) \<and>
   (\<forall>printed uid effects item e.
      json_dumps rt (PDict event) = Inr printed \<and> extract_employee_id rt (PDict event) = Inr uid \<and>
      query rt client (PDict event) uid = (effects, Inr (Inr item)) \<and>
      respond_item rt (PDict event) item = Inl e \<longrightarrow>
      returns (snd (lambda_handler rt client (PDict event))) 500
        (error_json (''Internal server error: '' @ str_exn rt e)))"
proof (intro conjI allI impI)
  show "\<exists>status body. returns (snd (lambda_handler rt client (PDict event))) status body"
  proof (cases "snd (handler_try rt client (PDict event))")
    case (Inl e)
    then show ?thesis using lambda_handler_raised by blast
  next
    case (Inr envelope)
    with lambda_handler_returned [OF Inr] handler_try_Inr [OF Inr] show ?thesis by simp
  qed
next
  fix e
  assume "snd (handler_try rt client (PDict event)) = Inl e"
  then show "returns (snd (lambda_handler rt client (PDict event))) 500
      (error_json (''Internal server error: '' @ str_exn rt e))"
    by (rule lambda_handler_raised)
next
  fix printed e
  assume "json_dumps rt (PDict event) = Inr printed \<and> extract_employee_id rt (PDict event) = Inl e"
  then have "snd (handler_try rt client (PDict event)) = Inl e"
    by (simp add: handler_try_def del: json_dumps.simps)
  then show "returns (snd (lambda_handler rt client (PDict event))) 500
      (error_json (''Internal server error: '' @ str_exn rt e))"
    by (rule lambda_handler_raised)
next
  fix printed uid e
  assume "json_dumps rt (PDict event) = Inr printed \<and>
      extract_employee_id rt (PDict event) = Inr uid \<and>
      snd (query rt client (PDict event) uid) = Inl e"
  then have "snd (handler_try rt client (PDict event)) = Inl e"
    by (cases "query rt client (PDict event) uid") (simp add: handler_try_def del: json_dumps.simps)
  then show "returns (snd (lambda_handler rt client (PDict event))) 500
      (error_json (''Internal server error: '' @ str_exn rt e))"
    by (rule lambda_handler_raised)
next
  fix printed uid effects item e
  assume "json_dumps rt (PDict event) = Inr printed \<and> extract_employee_id rt (PDict event) = Inr uid \<and>
      query rt client (PDict event) uid = (effects, Inr (Inr item)) \<and>
      respond_item rt (PDict event) item = Inl e"
  then have "snd (handler_try rt client (PDict event)) = Inl e"
    by (simp add: handler_try_def del: json_dumps.simps)
  then show "returns (snd (lambda_handler rt client (PDict event))) 500
      (error_json (''Internal server error: '' @ str_exn rt e))"
    by (rule lambda_handler_raised)
qed

section \<open>The handler and an event that is not an object\<close>

text \<open>
  C1 at the event \<^verbatim>\<open>null\<close> and at the event \<^verbatim>\<open>["agent", "actionGroup"]\<close>. The extraction
  raises (\<^verbatim>\<open>'requestBody' in None\<close> is a \<^verbatim>\<open>TypeError\<close>; the list holds no identifier),
  the top-level \<^verbatim>\<open>except\<close> catches that and calls \<^verbatim>\<open>format_response\<close>, and this call,
  which is in no \<^verbatim>\<open>try\<close>, raises in its turn at line 180 (\<^verbatim>\<open>'agent' in None\<close>) or at
  line 182 (a list has no \<^verbatim>\<open>get\<close>): the exception leaves the handler, and no envelope
  is returned.
\<close>

theorem lambda_handler_raises_on_non_object:
  "snd (handler_try rt client PNone) = Inl TypeError \<and>
   snd (lambda_handler rt client PNone) = Inl TypeError \<and>
   snd (handler_try rt client (PList [PStr ''agent'', PStr ''actionGroup''])) = Inl missing_id \<and>
   snd (lambda_handler rt client (PList [PStr ''agent'', PStr ''actionGroup''])) = Inl AttributeError"
proof -
  have a: "handler_try rt client PNone = ([], Inl TypeError)"
    by (simp add: handler_try_def extract_employee_id_def is_agent_request_def)
  have b: "format_response rt PNone (internal_error_body rt TypeError) 500 = Inl TypeError"
    by (simp add: format_response_def internal_error_body_def json_dumps_error_body)
  have c: "handler_try rt client (PList [PStr ''agent'', PStr ''actionGroup'']) = ([], Inl missing_id)"
    by (simp add: handler_try_def extract_employee_id_def is_agent_request_def top_level_value_def
        to_identifier_def)
  have d: "format_response rt (PList [PStr ''agent'', PStr ''actionGroup''])
      (internal_error_body rt missing_id) 500 = Inl AttributeError"
    by (simp add: format_response_def internal_error_body_def json_dumps_error_body)
  from a b c d show ?thesis by (simp add: lambda_handler_def)
qed

section \<open>The outcomes of the lookup\<close>

text \<open>
  C2, as amended. For an identifier that passed the check (and an event that line 10 could
  print), the handler's envelope is fixed by the outcome of \<^verbatim>\<open>get_item\<close>: no item gives
  404 and the message naming the identifier; a missing table 404 and its own message;
  exhausted throughput 429. A found item gives 200 and the decoded record when it is not
  empty and is decoded and encoded; a found item that is empty gives the fallback 500, and
  one that fails to decode or encode the internal error 500.
\<close>

theorem lookup_outcomes:
  assumes "json_dumps rt event = Inr printed"
    and "extract_employee_id rt event = Inr uid"
    and "isdigit uid"
  shows
    "(\<forall>m. get_item client table_name [(''empID'', [(''N'', PStr uid)])] =
         Inl (ClientError ''ResourceNotFoundException'' m) \<longrightarrow>
       returns (snd (lambda_handler rt client event)) 404
         (error_json ''DynamoDB table leaveBalanceHRTable not found'')) \<and>
     (\<forall>m. get_item client table_name [(''empID'', [(''N'', PStr uid)])] =
         Inl (ClientError ''ProvisionedThroughputExceededException'' m) \<longrightarrow>
       returns (snd (lambda_handler rt client event)) 429
         (error_json ''Database is currently experiencing high traffic. Please try again later.'')) \<and>
     (\<forall>response. get_item client table_name [(''empID'', [(''N'', PStr uid)])] = Inr response \<longrightarrow>
       (case Item response of
          None \<Rightarrow>
            returns (snd (lambda_handler rt client event)) 404
              (error_json (''Employee with ID '' @ uid @ '' not found in the leave balance database''))
        | Some item \<Rightarrow>
            if item = [] then
              returns (snd (lambda_handler rt client event)) 500
                (error_json ''An unexpected error occurred while processing the leave balance data'')
            else
              (case decode_item rt item of
                 Inl e \<Rightarrow>
                   returns (snd (lambda_handler rt client event)) 500
                     (error_json (''Internal server error: '' @ str_exn rt e))
               | Inr readable \<Rightarrow>
                   (case json_dumps rt (PDict readable) of
                      Inl e \<Rightarrow>
                        returns (snd (lambda_handler rt client event)) 500
                          (error_json (''Internal server error: '' @ str_exn rt e))
                    | Inr body \<Rightarrow> returns (snd (lambda_handler rt client event)) 200 body))))"
proof (intro conjI allI impI)
  fix m
  assume "get_item client table_name [(''empID'', [(''N'', PStr uid)])] =
      Inl (ClientError ''ResourceNotFoundException'' m)"
  with lambda_handler_classified [OF assms, of client]
  show "returns (snd (lambda_handler rt client event)) 404
      (error_json ''DynamoDB table leaveBalanceHRTable not found'')"
    by (simp add: caught_by_def)
next
  fix m
  assume "get_item client table_name [(''empID'', [(''N'', PStr uid)])] =
      Inl (ClientError ''ProvisionedThroughputExceededException'' m)"
  with lambda_handler_classified [OF assms, of client]
  show "returns (snd (lambda_handler rt client event)) 429
      (error_json ''Database is currently experiencing high traffic. Please try again later.'')"
    by (simp add: caught_by_def)
next
  fix response
  assume "get_item client table_name [(''empID'', [(''N'', PStr uid)])] = Inr response"
  with lambda_handler_classified [OF assms, of client]
  show "(case Item response of
          None \<Rightarrow>
            returns (snd (lambda_handler rt client event)) 404
              (error_json (''Employee with ID '' @ uid @ '' not found in the leave balance database''))
        | Some item \<Rightarrow>
            if item = [] then
              returns (snd (lambda_handler rt client event)) 500
                (error_json ''An unexpected error occurred while processing the leave balance data'')
            else
              (case decode_item rt item of
                 Inl e \<Rightarrow>
                   returns (snd (lambda_handler rt client event)) 500
                     (error_json (''Internal server error: '' @ str_exn rt e))
               | Inr readable \<Rightarrow>
                   (case json_dumps rt (PDict readable) of
                      Inl e \<Rightarrow>
                        returns (snd (lambda_handler rt client event)) 500
                          (error_json (''Internal server error: '' @ str_exn rt e))
                    | Inr body \<Rightarrow> returns (snd (lambda_handler rt client event)) 200 body)))"
    by (simp del: json_dumps.simps)
qed

theorem lookup_outcomes_witness:
  "extract_employee_id sample_runtime (PDict [(''empID'', PStr ''12345'')]) = Inr ''12345'' \<and>
   isdigit ''12345'' \<and>
   decode_item sample_runtime sample_item =
     Inr [(''empID'', PInt 12345), (''balance'', PInt 15), (''name'', PStr ''Ana'')] \<and>
   returns (snd (lambda_handler sample_runtime sample_client (PDict [(''empID'', PStr ''12345'')]))) 200
     ''{\"empID\": 12345, \"balance\": 15, \"name\": \"Ana\"}'' \<and>
   returns
     (snd (lambda_handler sample_runtime
        (sample_client\<lparr>get_item := (\<lambda>t key.
           Inl (ClientError ''ProvisionedThroughputExceededException'' ''Rate exceeded''))\<rparr>)
        (PDict [(''empID'', PStr ''12345'')]))) 429
     (error_json ''Database is currently experiencing high traffic. Please try again later.'')"
proof -
  let ?event = "PDict [(''empID'', PStr ''12345'')] :: string pyval"
  let ?busy = "sample_client\<lparr>get_item := (\<lambda>t key.
      Inl (ClientError ''ProvisionedThroughputExceededException'' ''Rate exceeded''))\<rparr>"
  have h1: "json_dumps sample_runtime ?event = Inr ''{\"empID\": \"12345\"}''"
    by (simp add: json_quote_def json_escape_def)
  have h2: "extract_employee_id sample_runtime ?event = Inr ''12345''"
    by (simp add: extract_employee_id_object is_agent_request_object has_key_def to_identifier_def
        dict_get_def)
  have h3: "isdigit ''12345''"
    by (simp add: isdigit_def is_unicode_digit_def is_ascii_digit_def)
  have d: "decode_item sample_runtime sample_item =
     Inr [(''empID'', PInt 12345), (''balance'', PInt 15), (''name'', PStr ''Ana'')]"
    by (simp add: decode_item_def sample_item_def decode_value_def py_int_def strip_int_space_def
        is_int_space_def unsigned_literal_def int_max_str_digits_def is_ascii_digit_def
        digit_value_def)
  have j: "json_dumps sample_runtime
       (PDict [(''empID'', PInt 12345), (''balance'', PInt 15), (''name'', PStr ''Ana'')]) =
     Inr ''{\"empID\": 12345, \"balance\": 15, \"name\": \"Ana\"}''"
    by (simp add: json_quote_def json_escape_def str_of_int_def str_of_nat.simps digit_char_def
        int_max_str_digits_def)
  have g: "get_item sample_client table_name [(''empID'', [(''N'', PStr ''12345'')])] =
     Inr \<lparr>Item = Some sample_item\<rparr>"
    by (simp add: sample_client_def)
  have n: "sample_item \<noteq> []" by (simp add: sample_item_def)
  from lookup_outcomes [OF h1 h2 h3, of sample_client] g
  have "(case Item \<lparr>Item = Some sample_item\<rparr> of
          None \<Rightarrow>
            returns (snd (lambda_handler sample_runtime sample_client ?event)) 404
              (error_json (''Employee with ID '' @ ''12345'' @ '' not found in the leave balance database''))
        | Some item \<Rightarrow>
            if item = [] then
              returns (snd (lambda_handler sample_runtime sample_client ?event)) 500
                (error_json ''An unexpected error occurred while processing the leave balance data'')
            else
              (case decode_item sample_runtime item of
                 Inl e \<Rightarrow>
                   returns (snd (lambda_handler sample_runtime sample_client ?event)) 500
                     (error_json (''Internal server error: '' @ str_exn sample_runtime e))
               | Inr readable \<Rightarrow>
                   (case json_dumps sample_runtime (PDict readable) of
                      Inl e \<Rightarrow>
                        returns (snd (lambda_handler sample_runtime sample_client ?event)) 500
                          (error_json (''Internal server error: '' @ str_exn sample_runtime e))
                    | Inr body \<Rightarrow>
                        returns (snd (lambda_handler sample_runtime sample_client ?event)) 200 body)))"
    by blast
  then have ok: "returns (snd (lambda_handler sample_runtime sample_client ?event)) 200
     ''{\"empID\": 12345, \"balance\": 15, \"name\": \"Ana\"}''"
    by (simp add: n d j del: json_dumps.simps)
  have "get_item ?busy table_name [(''empID'', [(''N'', PStr ''12345'')])] =
     Inl (ClientError ''ProvisionedThroughputExceededException'' ''Rate exceeded'')"
    by simp
  with lookup_outcomes [OF h1 h2 h3, of ?busy]
  have busy: "returns (snd (lambda_handler sample_runtime ?busy ?event)) 429
     (error_json ''Database is currently experiencing high traffic. Please try again later.'')"
    by blast
  from h2 h3 d ok busy show ?thesis by blast
qed

text \<open>
  C2 as stated fails on a found item that is empty: the handler answers with its fallback,
  status 500.
\<close>

theorem found_empty_item_counterexample:
  "get_item (sample_client\<lparr>get_item := (\<lambda>t key. Inr \<lparr>Item = Some []\<rparr>)\<rparr>) table_name
     [(''empID'', [(''N'', PStr ''12345'')])] = Inr \<lparr>Item = Some []\<rparr> \<and>
   returns
     (snd (lambda_handler sample_runtime (sample_client\<lparr>get_item := (\<lambda>t key. Inr \<lparr>Item = Some []\<rparr>)\<rparr>)
        (PDict [(''empID'', PStr ''12345'')]))) 500
     (error_json ''An unexpected error occurred while processing the leave balance data'')"
proof -
  let ?event = "PDict [(''empID'', PStr ''12345'')] :: string pyval"
  let ?client = "sample_client\<lparr>get_item := (\<lambda>t key. Inr \<lparr>Item = Some []\<rparr>)\<rparr>"
  have h1: "json_dumps sample_runtime ?event = Inr ''{\"empID\": \"12345\"}''"
    by (simp add: json_quote_def json_escape_def)
  have h2: "extract_employee_id sample_runtime ?event = Inr ''12345''"
    by (simp add: extract_employee_id_object is_agent_request_object has_key_def to_identifier_def
        dict_get_def)
  have h3: "isdigit ''12345''"
    by (simp add: isdigit_def is_unicode_digit_def is_ascii_digit_def)
  from lambda_handler_classified [OF h1 h2 h3, of ?client] show ?thesis by simp
qed

section \<open>The check of the identifier\<close>

text \<open>
  C3 at the identifier made of the one character U+00B2 (superscript two), which is not a
  decimal digit: \<^verbatim>\<open>isdigit()\<close> accepts it, so the handler calls \<^verbatim>\<open>get_item\<close> with it
  as the numeric key, and whatever the store answers, the status is not 400.
\<close>

theorem superscript_digit_reaches_get_item:
  "extract_employee_id rt (PDict [(''empID'', PStr [CHR 0xB2])]) = Inr [CHR 0xB2] \<and>
   \<not> is_ascii_digit (CHR 0xB2) \<and>
   isdigit [CHR 0xB2] \<and>
   filter is_GetItem (fst (lambda_handler rt client (PDict [(''empID'', PStr [CHR 0xB2])]))) =
     [GetItem table_name [(''empID'', [(''N'', PStr [CHR 0xB2])])]] \<and>
   \<not> returns (snd (lambda_handler rt client (PDict [(''empID'', PStr [CHR 0xB2])]))) 400 body"
proof -
  let ?event = "PDict [(''empID'', PStr [CHR 0xB2])] :: 'a pyval"
  have h1: "json_dumps rt ?event =
      Inr (''{'' @ json_quote ''empID'' @ '': '' @ json_quote [CHR 0xB2] @ ''}'')"
    by simp
  have h2: "extract_employee_id rt ?event = Inr [CHR 0xB2]"
    by (simp add: extract_employee_id_object is_agent_request_object has_key_def to_identifier_def
        dict_get_def)
  have h3: "isdigit [CHR 0xB2]"
    by (simp add: isdigit_def is_unicode_digit_def is_ascii_digit_def)
  have n: "\<not> is_ascii_digit (CHR 0xB2)"
    by (simp add: is_ascii_digit_def)
  have e: "filter is_GetItem (fst (lambda_handler rt client ?event)) =
     [GetItem table_name [(''empID'', [(''N'', PStr [CHR 0xB2])])]]"
    by (simp add: lambda_handler_effects handler_try_effects_digit [OF h1 h2 h3])
  note r = digit_identifier_not_400 [OF h1 h2 h3, of client body]
  from h2 n h3 e r show ?thesis by blast
qed

section \<open>The decoding of a field\<close>

text \<open>
  C4. The decoder's rule for one field: under the tag \<^verbatim>\<open>N\<close>, a string without a point is
  parsed as an integer and one with a point as a float, and a string that does not parse
  is kept; under any other tag the payload is passed through. So \<^verbatim>\<open>"10"\<close> gives the
  integer 10, \<^verbatim>\<open>"3.5"\<close> the float that \<^verbatim>\<open>float("3.5")\<close> is, and \<^verbatim>\<open>"abc"\<close> stays a string. Each
  field of the decoded record is the decoding of that field alone, under its own name, and
  the record does not depend on the order in which the store lists the fields.
\<close>

theorem decode_rule:
  "decode_value rt ((''N'', PStr s) # others) =
     Inr (if CHR ''.'' \<notin> set s
          then (case py_int s of Some i \<Rightarrow> PInt i | None \<Rightarrow> PStr s)
          else (case float_of_str rt s of Some x \<Rightarrow> PFloat x | None \<Rightarrow> PStr s)) \<and>
   (value_type \<noteq> ''N'' \<longrightarrow> decode_value rt ((value_type, raw_value) # others) = Inr raw_value) \<and>
   decode_value rt [(''N'', PStr ''10'')] = Inr (PInt 10) \<and>
   decode_value rt [(''N'', PStr ''abc'')] = Inr (PStr ''abc'') \<and>
   (float_of_str rt ''3.5'' = Some x \<longrightarrow> decode_value rt [(''N'', PStr ''3.5'')] = Inr (PFloat x)) \<and>
   (distinct (map fst item) \<and> decode_item rt item = Inr readable \<longrightarrow>
      map fst readable = map fst item \<and>
      (\<forall>field value_dict. map_of item field = Some value_dict \<longrightarrow>
         (\<exists>v. decode_value rt value_dict = Inr v \<and> map_of readable field = Some v))) \<and>
   (distinct (map fst item) \<and> distinct (map fst item') \<and> set item' = set item \<and>
    decode_item rt item = Inr readable \<longrightarrow>
      (\<exists>readable'. decode_item rt item' = Inr readable' \<and> map_of readable' = map_of readable))"
proof (intro conjI impI allI)
  show "decode_value rt ((''N'', PStr s) # others) =
     Inr (if CHR ''.'' \<notin> set s
          then (case py_int s of Some i \<Rightarrow> PInt i | None \<Rightarrow> PStr s)
          else (case float_of_str rt s of Some x \<Rightarrow> PFloat x | None \<Rightarrow> PStr s))"
    by (simp add: decode_value_def split: option.splits)
  show "decode_value rt [(''N'', PStr ''10'')] = Inr (PInt 10)"
    by (simp add: decode_value_def py_int_10)
  show "decode_value rt [(''N'', PStr ''abc'')] = Inr (PStr ''abc'')"
    by (simp add: decode_value_def py_int_abc)
next
  assume "value_type \<noteq> ''N''"
  then show "decode_value rt ((value_type, raw_value) # others) = Inr raw_value"
    by (simp add: decode_value_def)
next
  assume "float_of_str rt ''3.5'' = Some x"
  then show "decode_value rt [(''N'', PStr ''3.5'')] = Inr (PFloat x)"
    by (simp add: decode_value_def)
next
  assume a: "distinct (map fst item) \<and> decode_item rt item = Inr readable"
  then show "map fst readable = map fst item"
    using decode_fields_keys [of rt item "[]" readable] by (simp add: decode_item_def)
next
  fix field value_dict
  assume a: "distinct (map fst item) \<and> decode_item rt item = Inr readable"
    and m: "map_of item field = Some value_dict"
  from a have f: "decode_fields rt item [] = Inr readable" by (simp add: decode_item_def)
  from m have "(field, value_dict) \<in> set item" by (rule map_of_SomeD)
  from decode_fields_each [OF f this] obtain v where v: "decode_value rt value_dict = Inr v" ..
  with decode_fields_map_of [OF f, of field] a m have "map_of readable field = Some v" by simp
  with v show "\<exists>v. decode_value rt value_dict = Inr v \<and> map_of readable field = Some v" by blast
next
  assume a: "distinct (map fst item) \<and> distinct (map fst item') \<and> set item' = set item \<and>
    decode_item rt item = Inr readable"
  then have f: "decode_fields rt item [] = Inr readable" by (simp add: decode_item_def)
  have "\<exists>readable'. decode_fields rt item' [] = Inr readable'"
  proof (rule decode_fields_total)
    fix field value_dict
    assume "(field, value_dict) \<in> set item'"
    with a have "(field, value_dict) \<in> set item" by simp
    from decode_fields_each [OF f this] show "\<exists>v. decode_value rt value_dict = Inr v" .
  qed
  then obtain readable' where f': "decode_fields rt item' [] = Inr readable'" ..
  from a have "map_of item' = map_of item" by (simp add: map_of_inject_set)
  then have "map_of readable' field = map_of readable field" for field
    using decode_fields_map_of [OF f, of field] decode_fields_map_of [OF f', of field] a by simp
  then have "map_of readable' = map_of readable" by (rule ext)
  with f' show "\<exists>readable'. decode_item rt item' = Inr readable' \<and> map_of readable' = map_of readable"
    by (auto simp: decode_item_def)
qed

theorem decode_rule_witness:
  "float_of_str sample_runtime ''3.5'' = Some ''3.5'' \<and>
   decode_value sample_runtime [(''N'', PStr ''3.5'')] = Inr (PFloat ''3.5'') \<and>
   decode_value sample_runtime [(''S'', PStr ''Ana'')] = Inr (PStr ''Ana'') \<and>
   distinct (map fst sample_item) \<and>
   decode_item sample_runtime sample_item =
     Inr [(''empID'', PInt 12345), (''balance'', PInt 15), (''name'', PStr ''Ana'')] \<and>
   (\<exists>readable'. decode_item sample_runtime (rev sample_item) = Inr readable' \<and>
      map_of readable' = map_of [(''empID'', PInt 12345), (''balance'', PInt 15), (''name'', PStr ''Ana'')])"
proof -
  let ?readable = "[(''empID'', PInt 12345), (''balance'', PInt 15), (''name'', PStr ''Ana'')] :: string pydict"
  have fl: "float_of_str sample_runtime ''3.5'' = Some ''3.5''"
    by (simp add: sample_runtime_def sample_float_def is_ascii_digit_def)
  have d: "decode_item sample_runtime sample_item = Inr ?readable"
    by (simp add: decode_item_def sample_item_def decode_value_def py_int_def strip_int_space_def
        is_int_space_def unsigned_literal_def int_max_str_digits_def is_ascii_digit_def
        digit_value_def)
  have di: "distinct (map fst sample_item)" "distinct (map fst (rev sample_item))"
    by (simp_all add: sample_item_def)
  have se: "set (rev sample_item) = set sample_item"
    by (rule set_rev)
  have s: "''S'' \<noteq> ''N''" by simp
  note t = decode_rule [of sample_runtime "''3.5''" "[]" "''S''" "PStr ''Ana''" "''3.5''"
      sample_item ?readable "rev sample_item"]
  from t fl have a: "decode_value sample_runtime [(''N'', PStr ''3.5'')] = Inr (PFloat ''3.5'')"
    by blast
  from t s have b: "decode_value sample_runtime [(''S'', PStr ''Ana'')] = Inr (PStr ''Ana'')"
    by blast
  from t di se d have c: "\<exists>readable'. decode_item sample_runtime (rev sample_item) = Inr readable' \<and>
      map_of readable' = map_of ?readable"
    by blast
  from fl a b di(1) d c show ?thesis by blast
qed

section \<open>A request without an identifier\<close>

text \<open>
  C5, as amended, for an event that is an object. When the value that the extraction
  ends with (that of the branch taken, or else the top-level \<^verbatim>\<open>empID\<close>) is null, or is a
  value whose string is empty, the extraction raises the \<^verbatim>\<open>ValueError\<close> "Employee ID not
  found in the request"; the handler then makes no call to the store and returns the
  envelope with status 500 and the payload
  \<^verbatim>\<open>{"error": "Internal server error: Employee ID not found in the request"}\<close>.
\<close>

theorem missing_identifier_is_internal_error:
  "(is_agent_request (PDict event) = Inr agent \<and>
    (if agent then agent_value rt (PDict event)
     else if has_key ''body'' event then body_value rt (PDict event)
     else Inr PNone) = Inr found \<and>
    user_input_data = (if found = PNone then dict_get event ''empID'' PNone else found) \<and>
    (user_input_data = PNone \<or> py_str rt user_input_data = [])
    \<longrightarrow> extract_employee_id rt (PDict event) = Inl missing_id) \<and>
   (json_dumps rt (PDict event) = Inr printed \<and> extract_employee_id rt (PDict event) = Inl missing_id
    \<longrightarrow> fst (lambda_handler rt client (PDict event)) = [] \<and>
        returns (snd (lambda_handler rt client (PDict event))) 500
          (error_json ''Internal server error: Employee ID not found in the request''))"
proof (intro conjI impI)
  assume a: "is_agent_request (PDict event) = Inr agent \<and>
    (if agent then agent_value rt (PDict event)
     else if has_key ''body'' event then body_value rt (PDict event)
     else Inr PNone) = Inr found \<and>
    user_input_data = (if found = PNone then dict_get event ''empID'' PNone else found) \<and>
    (user_input_data = PNone \<or> py_str rt user_input_data = [])"
  then have "to_identifier rt user_input_data = Inl missing_id"
    by (auto simp: to_identifier_def)
  with a show "extract_employee_id rt (PDict event) = Inl missing_id"
    by (simp add: extract_employee_id_object)
next
  assume a: "json_dumps rt (PDict event) = Inr printed \<and>
    extract_employee_id rt (PDict event) = Inl missing_id"
  then have t: "handler_try rt client (PDict event) = ([], Inl missing_id)"
    by (simp add: handler_try_def del: json_dumps.simps)
  then show "fst (lambda_handler rt client (PDict event)) = []"
    by (simp add: lambda_handler_effects)
  from t have "snd (handler_try rt client (PDict event)) = Inl missing_id" by simp
  from lambda_handler_raised [OF this]
  show "returns (snd (lambda_handler rt client (PDict event))) 500
          (error_json ''Internal server error: Employee ID not found in the request'')"
    by (simp add: str_exn_def missing_id_def)
qed

theorem missing_identifier_is_internal_error_witness:
  "is_agent_request (PDict [(''empID'', PStr [])] :: string pyval) = Inr False \<and>
   py_str sample_runtime (PStr []) = [] \<and>
   extract_employee_id sample_runtime (PDict [(''empID'', PStr [])]) = Inl missing_id \<and>
   fst (lambda_handler sample_runtime sample_client (PDict [(''empID'', PStr [])])) = [] \<and>
   returns (snd (lambda_handler sample_runtime sample_client (PDict [(''empID'', PStr [])]))) 500
     (error_json ''Internal server error: Employee ID not found in the request'') \<and>
   body_value sample_runtime (PDict [(''body'', PStr ''{}'')]) = Inr PNone \<and>
   extract_employee_id sample_runtime (PDict [(''body'', PStr ''{}'')]) = Inl missing_id"
proof -
  let ?event = "[(''empID'', PStr [])] :: string pydict"
  let ?other = "[(''body'', PStr ''{}'')] :: string pydict"
  have a: "is_agent_request (PDict ?event) = Inr False"
    by (simp add: is_agent_request_object has_key_def)
  have k: "\<not> has_key ''body'' ?event" "dict_get ?event ''empID'' PNone = PStr []"
    by (simp_all add: has_key_def dict_get_def)
  have s: "py_str sample_runtime (PStr []) = []"
    by simp
  have j: "json_dumps sample_runtime (PDict ?event) = Inr ''{\"empID\": \"\"}''"
    by (simp add: json_quote_def json_escape_def)
  note m = missing_identifier_is_internal_error
    [of ?event False sample_runtime PNone "PStr []" "''{\"empID\": \"\"}''" sample_client]
  from m a k s have x: "extract_employee_id sample_runtime (PDict ?event) = Inl missing_id"
    by simp
  with m j have y: "fst (lambda_handler sample_runtime sample_client (PDict ?event)) = [] \<and>
     returns (snd (lambda_handler sample_runtime sample_client (PDict ?event))) 500
       (error_json ''Internal server error: Employee ID not found in the request'')"
    by blast
  have a': "is_agent_request (PDict ?other) = Inr False"
    by (simp add: is_agent_request_object has_key_def)
  have b': "body_value sample_runtime (PDict ?other) = Inr PNone"
    by (simp add: body_value_def dict_get_def sample_runtime_def sample_loads_def json_quote_def)
  have k': "has_key ''body'' ?other" "dict_get ?other ''empID'' PNone = PNone"
    by (simp_all add: has_key_def dict_get_def)
  note m' = missing_identifier_is_internal_error
    [of ?other False sample_runtime PNone PNone _ sample_client]
  from m' a' b' k' have x': "extract_employee_id sample_runtime (PDict ?other) = Inl missing_id"
    by simp
  from a s x y b' x' show ?thesis by blast
qed

text \<open>
  C5 as stated fails on the empty event: no identifier can be extracted, and the status
  is 500, not 400.
\<close>

theorem missing_identifier_counterexample:
  "extract_employee_id sample_runtime (PDict []) = Inl missing_id \<and>
   returns (snd (lambda_handler sample_runtime sample_client (PDict []))) 500
     (error_json ''Internal server error: Employee ID not found in the request'') \<and>
   status_of (projr (snd (lambda_handler sample_runtime sample_client (PDict [])))) \<noteq> Some (PInt 400)"
proof -
  have x: "extract_employee_id sample_runtime (PDict []) = Inl missing_id"
    by (simp add: extract_employee_id_object is_agent_request_object has_key_def to_identifier_def
        dict_get_def)
  then have "snd (handler_try sample_runtime sample_client (PDict [])) = Inl missing_id"
    by (simp add: handler_try_def)
  from lambda_handler_raised [OF this]
  have r: "returns (snd (lambda_handler sample_runtime sample_client (PDict []))) 500
     (error_json ''Internal server error: Employee ID not found in the request'')"
    by (simp add: str_exn_def missing_id_def)
  then have "status_of (projr (snd (lambda_handler sample_runtime sample_client (PDict [])))) = Some (PInt 500)"
    by (cases "snd (lambda_handler sample_runtime sample_client (PDict []))") (simp_all add: returns_def)
  with x r show ?thesis by simp
qed

section \<open>The order of the extraction\<close>

text \<open>
  C6, as amended. The branch for the agent's request body is taken when the event has
  \<^verbatim>\<open>requestBody\<close> with \<^verbatim>\<open>content\<close> in it, and only otherwise the branch for \<^verbatim>\<open>body\<close>; a
  value found there is the result, whatever else the event holds. The top-level \<^verbatim>\<open>empID\<close>
  is read whenever the branch taken has found no value. The value is turned into a string
  with \<^verbatim>\<open>str\<close>. So the three shapes that carry one value (not null, not of empty text)
  give the same identifier, the text of that value.
\<close>

theorem extraction_order:
  "is_agent_request (PDict event) =
     (if has_key ''requestBody'' event
      then py_in ''content'' (dict_get event ''requestBody'' PNone)
      else Inr False) \<and>
   (is_agent_request (PDict event) = Inr True \<and> agent_value rt (PDict event) = Inr v \<and> v \<noteq> PNone \<longrightarrow>
      extract_employee_id rt (PDict event) = to_identifier rt v) \<and>
   (is_agent_request (PDict event) = Inr True \<and> agent_value rt (PDict event) = Inr PNone \<longrightarrow>
      extract_employee_id rt (PDict event) = to_identifier rt (dict_get event ''empID'' PNone)) \<and>
   (is_agent_request (PDict event) = Inr False \<and> has_key ''body'' event \<and>
    body_value rt (PDict event) = Inr v \<and> v \<noteq> PNone \<longrightarrow>
      extract_employee_id rt (PDict event) = to_identifier rt v) \<and>
   (is_agent_request (PDict event) = Inr False \<and> has_key ''body'' event \<and>
    body_value rt (PDict event) = Inr PNone \<longrightarrow>
      extract_employee_id rt (PDict event) = to_identifier rt (dict_get event ''empID'' PNone)) \<and>
   (is_agent_request (PDict event) = Inr False \<and> \<not> has_key ''body'' event \<longrightarrow>
      extract_employee_id rt (PDict event) = to_identifier rt (dict_get event ''empID'' PNone)) \<and>
   (w \<noteq> PNone \<and> py_str rt w \<noteq> [] \<longrightarrow>
      to_identifier rt w = Inr (py_str rt w) \<and>
      extract_employee_id rt
        (PDict [(''requestBody'', PDict [(''content'', PDict [(''application/json'',
            PDict [(''properties'', PList [PDict [(''value'', w)]])])])])]) = Inr (py_str rt w) \<and>
      extract_employee_id rt (PDict [(''body'', PDict [(''empID'', w)])]) = Inr (py_str rt w) \<and>
      (json_loads rt document = Inr (PDict [(''empID'', w)]) \<longrightarrow>
         extract_employee_id rt (PDict [(''body'', PStr document)]) = Inr (py_str rt w)) \<and>
      extract_employee_id rt (PDict [(''empID'', w)]) = Inr (py_str rt w))"
proof (intro conjI impI)
  show "is_agent_request (PDict event) =
     (if has_key ''requestBody'' event
      then py_in ''content'' (dict_get event ''requestBody'' PNone)
      else Inr False)"
    by (rule is_agent_request_object)
next
  assume "is_agent_request (PDict event) = Inr True \<and> agent_value rt (PDict event) = Inr v \<and> v \<noteq> PNone"
  then show "extract_employee_id rt (PDict event) = to_identifier rt v"
    by (simp add: extract_employee_id_object)
next
  assume "is_agent_request (PDict event) = Inr True \<and> agent_value rt (PDict event) = Inr PNone"
  then show "extract_employee_id rt (PDict event) = to_identifier rt (dict_get event ''empID'' PNone)"
    by (simp add: extract_employee_id_object)
next
  assume "is_agent_request (PDict event) = Inr False \<and> has_key ''body'' event \<and>
    body_value rt (PDict event) = Inr v \<and> v \<noteq> PNone"
  then show "extract_employee_id rt (PDict event) = to_identifier rt v"
    by (simp add: extract_employee_id_object)
next
  assume "is_agent_request (PDict event) = Inr False \<and> has_key ''body'' event \<and>
    body_value rt (PDict event) = Inr PNone"
  then show "extract_employee_id rt (PDict event) = to_identifier rt (dict_get event ''empID'' PNone)"
    by (simp add: extract_employee_id_object)
next
  assume "is_agent_request (PDict event) = Inr False \<and> \<not> has_key ''body'' event"
  then show "extract_employee_id rt (PDict event) = to_identifier rt (dict_get event ''empID'' PNone)"
    by (simp add: extract_employee_id_object)
next
  assume w: "w \<noteq> PNone \<and> py_str rt w \<noteq> []"
  then show "to_identifier rt w = Inr (py_str rt w)"
    by (simp add: to_identifier_def)
  from w show "extract_employee_id rt
        (PDict [(''requestBody'', PDict [(''content'', PDict [(''application/json'',
            PDict [(''properties'', PList [PDict [(''value'', w)]])])])])]) = Inr (py_str rt w)"
    by (simp add: extract_employee_id_object is_agent_request_object agent_value_def has_key_def
        dict_get_def to_identifier_def)
  from w show "extract_employee_id rt (PDict [(''body'', PDict [(''empID'', w)])]) = Inr (py_str rt w)"
    by (simp add: extract_employee_id_object is_agent_request_object body_value_def has_key_def
        dict_get_def to_identifier_def)
  from w show "extract_employee_id rt (PDict [(''empID'', w)]) = Inr (py_str rt w)"
    by (simp add: extract_employee_id_object is_agent_request_object has_key_def dict_get_def
        to_identifier_def)
next
  assume w: "w \<noteq> PNone \<and> py_str rt w \<noteq> []"
    and l: "json_loads rt document = Inr (PDict [(''empID'', w)])"
  then show "extract_employee_id rt (PDict [(''body'', PStr document)]) = Inr (py_str rt w)"
    by (simp add: extract_employee_id_object is_agent_request_object body_value_def has_key_def
        dict_get_def to_identifier_def)
qed

theorem extraction_order_witness:
  "extract_employee_id sample_runtime
     (PDict [(''requestBody'', PDict [(''content'', PDict [(''application/json'',
         PDict [(''properties'', PList [PDict [(''value'', PInt 12345)]])])])])]) = Inr ''12345'' \<and>
   extract_employee_id sample_runtime (PDict [(''body'', PDict [(''empID'', PInt 12345)])]) = Inr ''12345'' \<and>
   extract_employee_id sample_runtime (PDict [(''body'', PStr ''{\"empID\": 12345}'')]) = Inr ''12345'' \<and>
   extract_employee_id sample_runtime (PDict [(''empID'', PInt 12345)]) = Inr ''12345'' \<and>
   extract_employee_id sample_runtime
     (PDict [(''requestBody'', PDict [(''content'', PDict [])]), (''empID'', PStr ''12345'')]) = Inr ''12345''"
proof -
  let ?w = "PInt 12345 :: string pyval"
  let ?e = "[(''requestBody'', PDict [(''content'', PDict [])]), (''empID'', PStr ''12345'')] :: string pydict"
  have s: "py_str sample_runtime ?w = ''12345''"
    by (simp add: str_of_int_def str_of_nat.simps digit_char_def)
  have l: "json_loads sample_runtime ''{\"empID\": 12345}'' = Inr (PDict [(''empID'', ?w)])"
    by (simp add: sample_runtime_def sample_loads_def json_quote_def json_escape_def)
  have a: "is_agent_request (PDict ?e) = Inr True" "agent_value sample_runtime (PDict ?e) = Inr PNone"
    by (simp_all add: is_agent_request_object agent_value_def has_key_def dict_get_def)
  have d: "dict_get ?e ''empID'' PNone = PStr ''12345''"
    by (simp add: dict_get_def)
  have ws: "(PStr ''12345'' :: string pyval) \<noteq> PNone \<and> py_str sample_runtime (PStr ''12345'') \<noteq> []"
    by simp
  note t = extraction_order [of ?e sample_runtime _ ?w "''{\"empID\": 12345}''"]
  note u = extraction_order [of ?e sample_runtime _ "PStr ''12345''" "''{\"empID\": 12345}''"]
  from u ws have "to_identifier sample_runtime (PStr ''12345'') = Inr ''12345''"
    by simp
  with t a d have x: "extract_employee_id sample_runtime (PDict ?e) = Inr ''12345''"
    by simp
  from t s l have
    "extract_employee_id sample_runtime
       (PDict [(''requestBody'', PDict [(''content'', PDict [(''application/json'',
           PDict [(''properties'', PList [PDict [(''value'', ?w)]])])])])]) = Inr ''12345''"
    "extract_employee_id sample_runtime (PDict [(''body'', PDict [(''empID'', ?w)])]) = Inr ''12345''"
    "extract_employee_id sample_runtime (PDict [(''body'', PStr ''{\"empID\": 12345}'')]) = Inr ''12345''"
    "extract_employee_id sample_runtime (PDict [(''empID'', ?w)]) = Inr ''12345''"
    by simp_all
  with x show ?thesis by blast
qed

text \<open>
  C6 as stated fails on an event that has the agent's request body without properties and
  a \<^verbatim>\<open>body\<close> with an \<^verbatim>\<open>empID\<close>: trying the shapes in turn gives the identifier of the
  body, and the handler, which skips the body once the request body is there, finds none.
\<close>

theorem body_skipped_counterexample:
  "resolve_first_match sample_runtime
     (PDict [(''requestBody'', PDict [(''content'', PDict [])]),
             (''body'', PDict [(''empID'', PStr ''7'')])]) =
     Inr ''7'' \<and>
   extract_employee_id sample_runtime
     (PDict [(''requestBody'', PDict [(''content'', PDict [])]),
             (''body'', PDict [(''empID'', PStr ''7'')])]) =
     Inl missing_id"
  by (simp add: resolve_first_match_def first_match_def extract_employee_id_object
      is_agent_request_object top_level_value_object
      agent_value_def body_value_def has_key_def dict_get_def to_identifier_def)

section \<open>The two envelopes\<close>



section \<open>The diagnostic calls\<close>

text \<open>
  C8. The envelope the handler returns does not depend on what \<^verbatim>\<open>describe_table\<close> and
  \<^verbatim>\<open>scan\<close> return or raise: with any other outcome of the two calls, and the same
  \<^verbatim>\<open>get_item\<close>, the handler returns the same envelope (or raises the same exception).
\<close>

theorem probes_do_not_change_envelope:
  "snd (lambda_handler rt (client\<lparr>describe_table := d, scan := s\<rparr>) event) =
   snd (lambda_handler rt client event)"
  by (simp add: lambda_handler_def handler_try_def query_def query_try_def Let_def
      split: sum.splits prod.splits)

theorem probes_do_not_change_envelope_witness:
  "snd (lambda_handler sample_runtime
      (sample_client\<lparr>describe_table := (\<lambda>t. Inl (ClientError ''AccessDeniedException'' ''denied'')),
                     scan := (\<lambda>t n. Inl (OtherException ''timeout''))\<rparr>)
      (PDict [(''empID'', PStr ''12345'')])) =
   snd (lambda_handler sample_runtime sample_client (PDict [(''empID'', PStr ''12345'')]))"
  by (rule probes_do_not_change_envelope)

section \<open>The round trip of a decoded record\<close>

text \<open>
  C9. A record with distinct field names whose values are integers, floats and strings,
  once encoded by \<^verbatim>\<open>json.dumps\<close>, is read back by \<^verbatim>\<open>json.loads\<close> as the same record: the
  same names in the same order, each with a value of the same type and the same value.
  For a float this asks of the runtime that the JSON text of the float is read back as
  that float (\<^verbatim>\<open>float(repr(x)) == x\<close>, which holds for every float but the NaN). The
  names of a decoded record are distinct, and a record of such scalars is encoded unless
  one of its integers has more than 4300 digits.
\<close>

theorem record_round_trip:
  "(decode_item rt item = Inr readable \<longrightarrow> distinct (map fst readable)) \<and>
   (list_all (\<lambda>kv. is_scalar (snd kv) \<and>
       (\<forall>i. snd kv = PInt i \<longrightarrow> length (str_of_nat (nat \<bar>i\<bar>)) \<le> int_max_str_digits)) decoded
    \<longrightarrow> (\<exists>body. json_dumps rt (PDict decoded) = Inr body)) \<and>
   (distinct (map fst decoded) \<and>
    list_all (\<lambda>kv. is_scalar (snd kv) \<and> float_read_back rt (snd kv)) decoded \<and>
    json_dumps rt (PDict decoded) = Inr body
    \<longrightarrow> loads_flat rt body = Some (PDict decoded))"
proof (intro conjI impI)
  assume "decode_item rt item = Inr readable"
  then have "decode_fields rt item [] = Inr readable" by (simp add: decode_item_def)
  from decode_fields_distinct [OF this] show "distinct (map fst readable)" by simp
next
  assume a: "list_all (\<lambda>kv. is_scalar (snd kv) \<and>
       (\<forall>i. snd kv = PInt i \<longrightarrow> length (str_of_nat (nat \<bar>i\<bar>)) \<le> int_max_str_digits)) decoded"
  let ?member = "\<lambda>kv. bind (json_dumps rt (snd kv)) (\<lambda>t. Inr (json_quote (fst kv) @ '': '' @ t))"
  have "\<exists>ts. collect (map ?member decoded) = Inr ts"
  proof (rule collect_Inr)
    fix m
    assume "m \<in> set (map ?member decoded)"
    then obtain kv where kv: "kv \<in> set decoded" "m = ?member kv" by auto
    with a have s: "is_scalar (snd kv)"
      "\<forall>i. snd kv = PInt i \<longrightarrow> length (str_of_nat (nat \<bar>i\<bar>)) \<le> int_max_str_digits"
      by (auto simp: list_all_iff)
    then have "\<exists>t. json_dumps rt (snd kv) = Inr t"
      by (cases "snd kv") simp_all
    with kv show "\<exists>x. m = Inr x" by auto
  qed
  then show "\<exists>body. json_dumps rt (PDict decoded) = Inr body" by auto
next
  assume a: "distinct (map fst decoded) \<and>
    list_all (\<lambda>kv. is_scalar (snd kv) \<and> float_read_back rt (snd kv)) decoded \<and>
    json_dumps rt (PDict decoded) = Inr body"
  then obtain ts where ts: "list_all2 (\<lambda>kv m. \<exists>tv. json_dumps rt (snd kv) = Inr tv \<and>
             m = json_quote (fst kv) @ '': '' @ tv) decoded ts"
    and body: "body = ''{'' @ join '', '' ts @ ''}''"
    using json_dumps_record [of rt decoded body] by blast
  from a have sc: "\<forall>kv\<in>set decoded. is_scalar (snd kv) \<and> float_read_back rt (snd kv)"
    by (simp add: list_all_iff)
  from ts sc have "list_all2 (\<lambda>kv m. \<exists>tv. scan_value rt tv = Some (snd kv, []) \<and>
             m = json_quote (fst kv) @ '': '' @ tv) decoded ts"
  proof (induction rule: list_all2_induct)
    case Nil
    then show ?case by simp
  next
    case (Cons kv d m ts)
    from Cons.hyps(1) obtain tv where tv: "json_dumps rt (snd kv) = Inr tv"
      "m = json_quote (fst kv) @ '': '' @ tv"
      by blast
    from Cons.prems have "is_scalar (snd kv)" "float_read_back rt (snd kv)" by simp_all
    from scan_value_scalar [OF this tv(1)] tv(2)
    have "\<exists>tv. scan_value rt tv = Some (snd kv, []) \<and> m = json_quote (fst kv) @ '': '' @ tv"
      by blast
    with Cons show ?case by simp
  qed
  from loads_flat_record [OF this] a body show "loads_flat rt body = Some (PDict decoded)"
    by simp
qed

theorem record_round_trip_witness:
  "decode_item sample_runtime sample_item =
     Inr [(''empID'', PInt 12345), (''balance'', PInt 15), (''name'', PStr ''Ana'')] \<and>
   distinct (map fst [(''empID'', PInt 12345 :: string pyval), (''balance'', PInt 15), (''name'', PStr ''Ana'')]) \<and>
   float_read_back sample_runtime (PFloat ''3.5'') \<and>
   json_dumps sample_runtime
     (PDict [(''empID'', PInt 12345), (''balance'', PFloat ''3.5''), (''name'', PStr ''Ana'')]) =
     Inr ''{\"empID\": 12345, \"balance\": 3.5, \"name\": \"Ana\"}'' \<and>
   loads_flat sample_runtime ''{\"empID\": 12345, \"balance\": 3.5, \"name\": \"Ana\"}'' =
     Some (PDict [(''empID'', PInt 12345), (''balance'', PFloat ''3.5''), (''name'', PStr ''Ana'')]) \<and>
   (\<exists>body. json_dumps sample_runtime
      (PDict [(''empID'', PInt 12345), (''balance'', PFloat ''3.5''), (''name'', PStr ''Ana'')]) = Inr body)"
proof -
  let ?readable = "[(''empID'', PInt 12345), (''balance'', PInt 15), (''name'', PStr ''Ana'')] :: string pydict"
  let ?decoded = "[(''empID'', PInt 12345), (''balance'', PFloat ''3.5''), (''name'', PStr ''Ana'')] :: string pydict"
  let ?body = "''{\"empID\": 12345, \"balance\": 3.5, \"name\": \"Ana\"}''"
  have d: "decode_item sample_runtime sample_item = Inr ?readable"
    by (simp add: decode_item_def sample_item_def decode_value_def py_int_def strip_int_space_def
        is_int_space_def unsigned_literal_def int_max_str_digits_def is_ascii_digit_def
        digit_value_def)
  have f: "float_read_back sample_runtime (PFloat ''3.5'')"
    by (simp add: scan_value_def scan_number_def scan_integer_def scan_minus_def scan_fraction_def
        scan_exponent_def sample_runtime_def sample_float_def is_ascii_digit_def)
  have n: "length (str_of_nat 12345) \<le> int_max_str_digits"
    by (simp add: str_of_nat.simps int_max_str_digits_def)
  have j: "json_dumps sample_runtime (PDict ?decoded) = Inr ?body"
    by (simp add: json_quote_def json_escape_def str_of_int_def str_of_nat.simps digit_char_def
        int_max_str_digits_def sample_runtime_def)
  have di: "distinct (map fst ?decoded)" by simp
  have sc: "list_all (\<lambda>kv. is_scalar (snd kv) \<and> float_read_back sample_runtime (snd kv)) ?decoded"
    using f by simp
  have sm: "list_all (\<lambda>kv. is_scalar (snd kv) \<and>
       (\<forall>i. snd kv = PInt i \<longrightarrow> length (str_of_nat (nat \<bar>i\<bar>)) \<le> int_max_str_digits)) ?decoded"
    using n by simp
  note t = record_round_trip [of sample_runtime sample_item ?readable ?decoded ?body]
  from t d have a: "distinct (map fst ?readable)" by blast
  from t sm have b: "\<exists>body. json_dumps sample_runtime (PDict ?decoded) = Inr body" by blast
  from t di sc j have c: "loads_flat sample_runtime ?body = Some (PDict ?decoded)" by blast
  from d a f j c b show ?thesis by blast
qed

section \<open>Tagged values with no tag or several\<close>

text \<open>
  C10. The decoder looks at the first tag of a tagged value only, whatever follows it.
  A tagged value with no tag raises \<^verbatim>\<open>IndexError\<close>; when the item found has such a field
  the handler returns the internal-error envelope, status 500, not a decoded record.
\<close>

theorem decode_first_tag_only:
  "decode_value rt ((value_type, raw_value) # others) = decode_value rt [(value_type, raw_value)] \<and>
   decode_value rt [] = Inl IndexError \<and>
   (json_dumps rt event = Inr printed \<and> extract_employee_id rt event = Inr uid \<and>
    isdigit uid \<and>
    get_item client table_name [(''empID'', [(''N'', PStr uid)])] = Inr response \<and>
    Item response = Some item \<and> (field, []) \<in> set item
    \<longrightarrow> (\<exists>e. decode_item rt item = Inl e \<and>
           returns (snd (lambda_handler rt client event)) 500
             (error_json (''Internal server error: '' @ str_exn rt e))))"
proof (intro conjI impI)
  show "decode_value rt ((value_type, raw_value) # others) = decode_value rt [(value_type, raw_value)]"
    by (simp add: decode_value_def)
  show "decode_value rt [] = Inl IndexError"
    by (simp add: decode_value_def)
next
  assume a: "json_dumps rt event = Inr printed \<and> extract_employee_id rt event = Inr uid \<and>
    isdigit uid \<and>
    get_item client table_name [(''empID'', [(''N'', PStr uid)])] = Inr response \<and>
    Item response = Some item \<and> (field, []) \<in> set item"
  then obtain d where d: "event = PDict d"
    using extract_employee_id_Inr_object by blast
  from a obtain e where e: "decode_item rt item = Inl e"
    using decode_fields_empty_mapping [of field item rt "[]"] by (auto simp: decode_item_def)
  from a have ne: "item \<noteq> []" by auto
  from a have "snd (handler_try rt client event) = respond_item rt event item"
    using handler_try_digit [of rt event printed uid client] by (simp del: json_dumps.simps)
  with e ne have "snd (handler_try rt client event) = Inl e"
    by (simp add: respond_item_def)
  with d have "snd (handler_try rt client (PDict d)) = Inl e" by simp
  from lambda_handler_raised [OF this] e d
  show "\<exists>e. decode_item rt item = Inl e \<and>
     returns (snd (lambda_handler rt client event)) 500
       (error_json (''Internal server error: '' @ str_exn rt e))"
    by blast
qed

theorem decode_first_tag_only_witness:
  "decode_value sample_runtime [(''S'', PStr ''Ana''), (''N'', PStr ''7'')] = Inr (PStr ''Ana'') \<and>
   isdigit ''12345'' \<and>
   (\<exists>e. decode_item sample_runtime [(''empID'', [(''N'', PStr ''12345'')]), (''note'', [])] = Inl e \<and>
      returns
        (snd (lambda_handler sample_runtime
           (sample_client\<lparr>get_item := (\<lambda>t key.
              Inr \<lparr>Item = Some [(''empID'', [(''N'', PStr ''12345'')]), (''note'', [])]\<rparr>)\<rparr>)
           (PDict [(''empID'', PStr ''12345'')]))) 500
        (error_json (''Internal server error: '' @ str_exn sample_runtime e)))"
proof -
  let ?event = "PDict [(''empID'', PStr ''12345'')] :: string pyval"
  let ?item = "[(''empID'', [(''N'', PStr ''12345'')]), (''note'', [])] :: string item"
  let ?client = "sample_client\<lparr>get_item := (\<lambda>t key. Inr \<lparr>Item = Some ?item\<rparr>)\<rparr>"
  have h1: "json_dumps sample_runtime ?event = Inr ''{\"empID\": \"12345\"}''"
    by (simp add: json_quote_def json_escape_def)
  have h2: "extract_employee_id sample_runtime ?event = Inr ''12345''"
    by (simp add: extract_employee_id_object is_agent_request_object has_key_def to_identifier_def
        dict_get_def)
  have h3: "isdigit ''12345''"
    by (simp add: isdigit_def is_unicode_digit_def is_ascii_digit_def)
  have g: "get_item ?client table_name [(''empID'', [(''N'', PStr ''12345'')])] = Inr \<lparr>Item = Some ?item\<rparr>"
    by simp
  have i: "Item \<lparr>Item = Some ?item\<rparr> = Some ?item" "(''note'', []) \<in> set ?item"
    by simp_all
  note t = decode_first_tag_only [of sample_runtime "''S''" "PStr ''Ana''" "[(''N'', PStr ''7'')]"
      ?event "''{\"empID\": \"12345\"}''" "''12345''" ?client "\<lparr>Item = Some ?item\<rparr>" ?item "''note''"]
  have f: "decode_value sample_runtime [(''S'', PStr ''Ana''), (''N'', PStr ''7'')] = Inr (PStr ''Ana'')"
    using t by (simp add: decode_value_def)
  from t h1 h2 h3 g i
  have "\<exists>e. decode_item sample_runtime ?item = Inl e \<and>
      returns (snd (lambda_handler sample_runtime ?client ?event)) 500
        (error_json (''Internal server error: '' @ str_exn sample_runtime e))"
    by blast
  with f h3 show ?thesis by blast
qed


end
